theory Spec2Isabelle
  imports Main
begin

section \<open>Strings, runes and letter case\<close>

text \<open>
  A Go string is a sequence of bytes and is modelled as an Isabelle string, one character
  per byte. A rune is a Unicode code point. \<^verbatim>\<open>for pos, char := range in\<close> reads the
  string as UTF-8: it yields the byte offset and the rune of every encoded code point, and
  the rune \<open>RuneError\<close> (U+FFFD) with width 1 for a byte that starts no valid encoding.
\<close>

type_synonym rune = nat

definition RuneError :: rune where
  "RuneError = 65533"

text \<open>
  The table \<^verbatim>\<open>first\<close> of package utf8 with its \<^verbatim>\<open>acceptRanges\<close>: for a leading
  byte of a multi-byte encoding, the length of the encoding and the bounds of the second
  byte. The bytes \<open>0x80..0xC1\<close> and \<open>0xF5..0xFF\<close> lead no encoding.
\<close>

definition first_byte :: "nat \<Rightarrow> (nat \<times> nat \<times> nat) option" where
  "first_byte s0 =
     (if 194 \<le> s0 \<and> s0 \<le> 223 then Some (2, 128, 191)
      else if s0 = 224 then Some (3, 160, 191)
      else if 225 \<le> s0 \<and> s0 \<le> 236 then Some (3, 128, 191)
      else if s0 = 237 then Some (3, 128, 159)
      else if 238 \<le> s0 \<and> s0 \<le> 239 then Some (3, 128, 191)
      else if s0 = 240 then Some (4, 144, 191)
      else if 241 \<le> s0 \<and> s0 \<le> 243 then Some (4, 128, 191)
      else if s0 = 244 then Some (4, 128, 143)
      else None)"

text \<open>
  \<^verbatim>\<open>utf8.DecodeRuneInString\<close>: the first rune of a string and its width in bytes. The
  bytes \<open>s1\<close>, \<open>s2\<close>, \<open>s3\<close> are read only after the length test \<open>n < sz\<close>.
\<close>

definition DecodeRuneInString :: "string \<Rightarrow> rune \<times> nat" where
  "DecodeRuneInString s =
     (case s of
        [] \<Rightarrow> (RuneError, 0)
      | c0 # t \<Rightarrow>
          (let s0 = (of_char c0 :: nat) in
           if s0 < 128 then (s0, 1)
           else case first_byte s0 of
             None \<Rightarrow> (RuneError, 1)
           | Some (sz, lo, hi) \<Rightarrow>
               if length s < sz then (RuneError, 1)
               else let s1 = (of_char (s ! 1) :: nat) in
                 if s1 < lo \<or> hi < s1 then (RuneError, 1)
                 else if sz \<le> 2 then ((s0 mod 32) * 64 + s1 mod 64, 2)
                 else let s2 = (of_char (s ! 2) :: nat) in
                   if s2 < 128 \<or> 191 < s2 then (RuneError, 1)
                   else if sz \<le> 3
                     then ((s0 mod 16) * 4096 + (s1 mod 64) * 64 + s2 mod 64, 3)
                   else let s3 = (of_char (s ! 3) :: nat) in
                     if s3 < 128 \<or> 191 < s3 then (RuneError, 1)
                     else ((s0 mod 8) * 262144 + (s1 mod 64) * 4096
                             + (s2 mod 64) * 64 + s3 mod 64, 4)))"

text \<open>
  The pairs \<open>(pos, char)\<close> that \<^verbatim>\<open>range\<close> yields over a string whose first byte stands
  at offset \<open>pos\<close>.
\<close>

function range_string :: "nat \<Rightarrow> string \<Rightarrow> (nat \<times> rune) list" where
  "range_string pos [] = []"
| "range_string pos (c # cs) =
     (let w = snd (DecodeRuneInString (c # cs))
      in (pos, fst (DecodeRuneInString (c # cs))) # range_string (pos + w) (drop (w - 1) cs))"
  by pat_completeness auto
termination
  by (relation "measure (\<lambda>(pos, s). length s)") auto

text \<open>
  The conversion \<^verbatim>\<open>string(r)\<close> of a rune, which is also what \<^verbatim>\<open>WriteRune\<close> appends:
  the UTF-8 encoding of the rune, and that of \<open>RuneError\<close> for a surrogate or a value
  beyond U+10FFFF.
\<close>

definition string_of_rune :: "rune \<Rightarrow> string" where
  "string_of_rune r =
     (if r < 128 then [char_of r]
      else if r < 2048 then [char_of (192 + r div 64), char_of (128 + r mod 64)]
      else if 1114111 < r \<or> (55296 \<le> r \<and> r \<le> 57343)
        then [char_of (239::nat), char_of (191::nat), char_of (189::nat)]
      else if r < 65536
        then [char_of (224 + r div 4096), char_of (128 + (r div 64) mod 64),
              char_of (128 + r mod 64)]
      else [char_of (240 + r div 262144), char_of (128 + (r div 4096) mod 64),
            char_of (128 + (r div 64) mod 64), char_of (128 + r mod 64)])"

text \<open>
  The data of package unicode that lies outside this repository, taken as a parameter:
  \<open>Upper\<close> is membership in the range table \<^verbatim>\<open>unicode.Upper\<close>, consulted for runes
  beyond Latin-1, and \<open>UpperCase\<close> is \<^verbatim>\<open>unicode.To(unicode.UpperCase, r)\<close>, the mapping
  read from \<^verbatim>\<open>unicode.CaseRanges\<close>, consulted for runes beyond ASCII.
\<close>

record unicode_tables =
  Upper :: "rune \<Rightarrow> bool"
  UpperCase :: "rune \<Rightarrow> rune"

text \<open>
  \<^verbatim>\<open>unicode.IsUpper\<close>: up to \<^verbatim>\<open>MaxLatin1\<close> the answer comes from the array
  \<^verbatim>\<open>properties\<close>, whose upper-case letters are \<open>A..Z\<close>, \<open>U+00C0..U+00D6\<close> and
  \<open>U+00D8..U+00DE\<close>; beyond it from the table.
\<close>

definition IsUpper :: "unicode_tables \<Rightarrow> rune \<Rightarrow> bool" where
  "IsUpper tab r =
     (if r \<le> 255
      then (65 \<le> r \<and> r \<le> 90) \<or> (192 \<le> r \<and> r \<le> 214) \<or> (216 \<le> r \<and> r \<le> 222)
      else Upper tab r)"

text \<open>
  \<^verbatim>\<open>unicode.ToUpper\<close>: up to \<^verbatim>\<open>MaxASCII\<close> the letters \<open>a..z\<close> are moved down by
  \<open>'a' - 'A'\<close> and every other rune is returned as it is; beyond it the mapping comes from
  the table.
\<close>

definition ToUpper :: "unicode_tables \<Rightarrow> rune \<Rightarrow> rune" where
  "ToUpper tab r =
     (if r \<le> 127 then (if 97 \<le> r \<and> r \<le> 122 then r - 32 else r)
      else UpperCase tab r)"

text \<open>
  \<^verbatim>\<open>strings.Map(mapping, s)\<close> for a mapping without negative values: every rune of the
  string, as \<^verbatim>\<open>range\<close> yields it, is replaced by the encoding of its image.
\<close>

definition strings_Map :: "(rune \<Rightarrow> rune) \<Rightarrow> string \<Rightarrow> string" where
  "strings_Map mapping s =
     concat (map (\<lambda>(pos, c). string_of_rune (mapping c)) (range_string 0 s))"

text \<open>
  \<^verbatim>\<open>strings.ToUpper\<close>: a string of ASCII bytes is upper-cased byte by byte; any other
  string goes through \<^verbatim>\<open>Map(unicode.ToUpper, s)\<close>.
\<close>

definition strings_ToUpper :: "unicode_tables \<Rightarrow> string \<Rightarrow> string" where
  "strings_ToUpper tab s =
     (if list_all (\<lambda>c. (of_char c :: nat) < 128) s
      then map (\<lambda>c. if 97 \<le> (of_char c :: nat) \<and> (of_char c :: nat) \<le> 122
                     then char_of ((of_char c :: nat) - 32) else c) s
      else strings_Map (ToUpper tab) s)"

section \<open>The name deriver\<close>

text \<open>
  The loop of \<^verbatim>\<open>camelToUpperSnakeCase\<close> (config.go, lines 102-116). Its state is the
  string \<open>s\<close> built so far and the flag \<open>upperSequence\<close>; the last argument holds the
  pairs \<open>(pos, char)\<close> of \<open>in\<close> still to be read.
\<close>

fun snake_loop :: "unicode_tables \<Rightarrow> string \<Rightarrow> bool \<Rightarrow> (nat \<times> rune) list \<Rightarrow> string" where
  "snake_loop tab s upperSequence [] = s"
| "snake_loop tab s upperSequence ((pos, char) # rest) =
     (let s1 = (if pos \<noteq> 0 \<and> IsUpper tab char \<and> \<not> upperSequence then s @ ''_'' else s)
      in if IsUpper tab char
         then snake_loop tab (s1 @ string_of_rune char) True rest
         else snake_loop tab (s1 @ string_of_rune (ToUpper tab char)) False rest)"

definition camelToUpperSnakeCase :: "unicode_tables \<Rightarrow> string \<Rightarrow> string \<Rightarrow> string" where
  "camelToUpperSnakeCase tab inp prefix =
     (let p = strings_ToUpper tab prefix
      in if inp = [] then p
         else let s = snake_loop tab [] False (range_string 0 inp)
              in if p = [] then s else p @ ''_'' @ s)"

subsection \<open>The reference definition of the specification\<close>

text \<open>
  The specification speaks of the characters of a name, here the runes that the string
  encodes. A separator stands before the character at index \<open>i\<close> when that character is
  upper case and the one before it is not (a transition from a non-upper-case character
  to an upper-case one); inside a run of upper-case characters there is none. The tokens
  are upper case: a character that is upper case stays as it is, any other character is
  replaced by its upper-case mapping. The upper-case form of the prefix replaces every
  character by its upper-case mapping.
\<close>

definition runes :: "string \<Rightarrow> rune list" where
  "runes w = map snd (range_string 0 w)"

definition transition_at :: "unicode_tables \<Rightarrow> rune list \<Rightarrow> nat \<Rightarrow> bool" where
  "transition_at tab w i = (0 < i \<and> \<not> IsUpper tab (w ! (i - 1)) \<and> IsUpper tab (w ! i))"

definition upper_form :: "unicode_tables \<Rightarrow> rune \<Rightarrow> rune" where
  "upper_form tab r = (if IsUpper tab r then r else ToUpper tab r)"

definition derived_name :: "unicode_tables \<Rightarrow> string \<Rightarrow> string" where
  "derived_name tab w =
     concat (map (\<lambda>i. (if transition_at tab (runes w) i then ''_'' else [])
                        @ string_of_rune (upper_form tab (runes w ! i)))
       [0..<length (runes w)])"

definition upper_case :: "unicode_tables \<Rightarrow> string \<Rightarrow> string" where
  "upper_case tab w = concat (map (\<lambda>r. string_of_rune (ToUpper tab r)) (runes w))"

definition derive :: "unicode_tables \<Rightarrow> string \<Rightarrow> string \<Rightarrow> string" where
  "derive tab fieldOrSegmentName existingPrefix =
     (if fieldOrSegmentName = [] then upper_case tab existingPrefix
      else if upper_case tab existingPrefix = [] then derived_name tab fieldOrSegmentName
      else upper_case tab existingPrefix @ ''_'' @ derived_name tab fieldOrSegmentName)"

text \<open>
  An instance of the tables for the worked examples: the case data of Unicode for the
  Latin-1 range, and no letters beyond it. Up to U+00FF it maps \<open>U+00E0..U+00FE\<close>
  (without the division sign \<open>U+00F7\<close>) down by 32, \<open>U+00FF\<close> to \<open>U+0178\<close> and the micro
  sign \<open>U+00B5\<close> to \<open>U+039C\<close>.
\<close>

definition latin1_tables :: unicode_tables where
  "latin1_tables =
     \<lparr> Upper = (\<lambda>r. False),
       UpperCase = (\<lambda>r. if 224 \<le> r \<and> r \<le> 254 \<and> r \<noteq> 247 then r - 32
                         else if r = 255 then 376
                         else if r = 181 then 924
                         else r) \<rparr>"

section \<open>The environment\<close>

text \<open>
  The process environment is a finite table from names to values. \<^verbatim>\<open>os.LookupEnv\<close>
  answers "not found" for the empty name on every platform, before it consults the table.
\<close>

type_synonym env = "string \<rightharpoonup> string"

definition LookupEnv :: "env \<Rightarrow> string \<Rightarrow> string option" where
  "LookupEnv environ key = (if key = [] then None else environ key)"

section \<open>Parsing of scalars (package strconv)\<close>

datatype num_err = ErrSyntax | ErrRange

text \<open>\<^verbatim>\<open>strconv.NumError{Func, Num, Err}\<close>\<close>

datatype NumError = NumError string string num_err

text \<open>The size of \<^verbatim>\<open>int\<close> in bits, on the 64-bit platforms.\<close>

definition intSize :: nat where
  "intSize = 64"

definition is_digit :: "char \<Rightarrow> bool" where
  "is_digit c = (48 \<le> (of_char c :: nat) \<and> (of_char c :: nat) \<le> 57)"

definition digit_val :: "char \<Rightarrow> int" where
  "digit_val c = int (of_char c) - 48"

text \<open>
  The digit loop of \<^verbatim>\<open>strconv.ParseUint(s, 10, bitSize)\<close> over the bytes of \<open>s\<close>, with
  \<open>cutoff = maxUint64 / 10 + 1\<close> and \<open>maxVal = 2 ^ bitSize - 1\<close>. In base 10 without the
  base prefix every byte that is not a decimal digit is a syntax error. The accumulator is a
  \<^verbatim>\<open>uint64\<close>, held as an integer: the sum \<open>n1\<close> wraps modulo \<open>2 ^ 64\<close>, which the
  test \<open>n1 < n\<close> detects.
\<close>

fun ParseUint_loop :: "int \<Rightarrow> int \<Rightarrow> int \<Rightarrow> string \<Rightarrow> num_err + int" where
  "ParseUint_loop cutoff maxVal n [] = Inr n"
| "ParseUint_loop cutoff maxVal n (c # cs) =
     (if \<not> is_digit c then Inl ErrSyntax
      else if n \<ge> cutoff then Inl ErrRange
      else let n10 = n * 10;
               n1 = (n10 + digit_val c) mod 2 ^ 64
           in if n1 < n10 \<or> n1 > maxVal then Inl ErrRange
              else ParseUint_loop cutoff maxVal n1 cs)"

definition ParseUint :: "string \<Rightarrow> nat \<Rightarrow> num_err + int" where
  "ParseUint s bitSize =
     (if s = [] then Inl ErrSyntax
      else ParseUint_loop ((2 ^ 64 - 1) div 10 + 1) (2 ^ bitSize - 1) 0 s)"

text \<open>
  \<^verbatim>\<open>strconv.ParseInt(s, 10, 0)\<close>: a leading sign is picked off, the rest is read by
  \<^verbatim>\<open>ParseUint\<close>, and the magnitude is checked against \<open>2 ^ (bitSize - 1)\<close>. A range
  error of \<^verbatim>\<open>ParseUint\<close> comes with the value \<open>maxVal\<close>, which fails that check too.
\<close>

definition ParseInt :: "string \<Rightarrow> num_err + int" where
  "ParseInt s =
     (case s of
        [] \<Rightarrow> Inl ErrSyntax
      | c # cs \<Rightarrow>
          (let neg = (c = CHR ''-'');
               s1 = (if c = CHR ''+'' \<or> c = CHR ''-'' then cs else s);
               cutoff = (2::int) ^ (intSize - 1)
           in case ParseUint s1 intSize of
                Inl ErrSyntax \<Rightarrow> Inl ErrSyntax
              | Inl ErrRange \<Rightarrow> Inl ErrRange
              | Inr un \<Rightarrow>
                  if \<not> neg \<and> un \<ge> cutoff then Inl ErrRange
                  else if neg \<and> un > cutoff then Inl ErrRange
                  else Inr (if neg then - un else un)))"

text \<open>The fast path of \<^verbatim>\<open>strconv.Atoi\<close>, taken when \<open>0 < len s < 19\<close>.\<close>

fun Atoi_fast_loop :: "int \<Rightarrow> string \<Rightarrow> num_err + int" where
  "Atoi_fast_loop n [] = Inr n"
| "Atoi_fast_loop n (ch # cs) =
     (if \<not> is_digit ch then Inl ErrSyntax
      else Atoi_fast_loop (n * 10 + digit_val ch) cs)"

definition Atoi_raw :: "string \<Rightarrow> num_err + int" where
  "Atoi_raw s =
     (if 0 < length s \<and> length s < 19 then
        (let signed = (hd s = CHR ''-'' \<or> hd s = CHR ''+'');
             s1 = (if signed then tl s else s)
         in if signed \<and> length s1 < 1 then Inl ErrSyntax
            else case Atoi_fast_loop 0 s1 of
                   Inl e \<Rightarrow> Inl e
                 | Inr n \<Rightarrow> Inr (if hd s = CHR ''-'' then - n else n))
      else ParseInt s)"

text \<open>Every error of \<^verbatim>\<open>Atoi\<close> is a \<^verbatim>\<open>NumError\<close> with function name \<open>Atoi\<close>.\<close>

definition Atoi :: "string \<Rightarrow> NumError + int" where
  "Atoi s = (case Atoi_raw s of Inl e \<Rightarrow> Inl (NumError ''Atoi'' s e) | Inr n \<Rightarrow> Inr n)"

definition ParseBool :: "string \<Rightarrow> NumError + bool" where
  "ParseBool str =
     (if List.member [''1'', ''t'', ''T'', ''TRUE'', ''true'', ''True''] str then Inr True
      else if List.member [''0'', ''f'', ''F'', ''FALSE'', ''false'', ''False''] str then Inr False
      else Inl (NumError ''ParseBool'' str ErrSyntax))"

subsection \<open>Base-10 signed integers\<close>

text \<open>
  The reading of a string as a base-10 signed integer: an optional sign \<open>+\<close> or \<open>-\<close>,
  followed by one or more decimal digits, most significant digit first.
\<close>

definition decimal :: "string \<Rightarrow> int" where
  "decimal ds = foldl (\<lambda>n c. n * 10 + digit_val c) 0 ds"

definition base10 :: "string \<Rightarrow> int option" where
  "base10 s =
     (let neg = (s \<noteq> [] \<and> hd s = CHR ''-'');
          ds = (if s \<noteq> [] \<and> (hd s = CHR ''+'' \<or> hd s = CHR ''-'') then tl s else s)
      in if ds \<noteq> [] \<and> list_all is_digit ds
         then Some (if neg then - decimal ds else decimal ds)
         else None)"

section \<open>Values as the binder sees them (package reflect)\<close>

text \<open>
  \<^verbatim>\<open>reflect.Kind\<close>, in the order of its declaration (\<open>IntK\<close> is \<^verbatim>\<open>reflect.Int\<close>).
\<close>

datatype kind =
    Invalid | Bool | IntK | Int8 | Int16 | Int32 | Int64
  | Uint | Uint8 | Uint16 | Uint32 | Uint64 | Uintptr
  | Float32 | Float64 | Complex64 | Complex128
  | Array | Chan | Func | Interface | Map | Pointer | Slice | String | Struct
  | UnsafePointer

text \<open>The five kinds of the \<^verbatim>\<open>case reflect.Int, reflect.Int8, ...\<close> branch.\<close>

datatype int_kind = KInt | KInt8 | KInt16 | KInt32 | KInt64

text \<open>
  The kinds the binder has no branch for. \<open>KInvalid\<close> is the zero \<^verbatim>\<open>reflect.Value\<close>,
  which \<^verbatim>\<open>reflect.Indirect\<close> yields for a nil pointer.
\<close>

datatype other_kind =
    KInvalid | KUint | KUint8 | KUint16 | KUint32 | KUint64 | KUintptr
  | KFloat32 | KFloat64 | KComplex64 | KComplex128
  | KChan | KFunc | KInterface | KMap | KPointer | KUnsafePointer

text \<open>
  An addressable value reached from the target pointer. A struct is the list of its fields
  in declaration order; a field carries its name, the answer of \<^verbatim>\<open>CanSet\<close> (true
  exactly for an exported field, since the binder only descends into settable values) and
  its value. Values of the kinds without a branch are opaque: the binder never reads or
  writes them. The value is a tree: two slices of one target are taken not to share a
  backing array.
\<close>

datatype val =
    StringV string
  | IntV int_kind int
  | BoolV bool
  | StructV "field list"
  | ArrayV "val list"
  | SliceV "val list"
  | OtherV other_kind
and field = StructField string bool val

fun Name :: "field \<Rightarrow> string" where
  "Name (StructField n c v) = n"

fun CanSet :: "field \<Rightarrow> bool" where
  "CanSet (StructField n c v) = c"

fun Value :: "field \<Rightarrow> val" where
  "Value (StructField n c v) = v"

fun kind_of_int :: "int_kind \<Rightarrow> kind" where
  "kind_of_int KInt = IntK"
| "kind_of_int KInt8 = Int8"
| "kind_of_int KInt16 = Int16"
| "kind_of_int KInt32 = Int32"
| "kind_of_int KInt64 = Int64"

fun kind_of_other :: "other_kind \<Rightarrow> kind" where
  "kind_of_other KInvalid = Invalid"
| "kind_of_other KUint = Uint"
| "kind_of_other KUint8 = Uint8"
| "kind_of_other KUint16 = Uint16"
| "kind_of_other KUint32 = Uint32"
| "kind_of_other KUint64 = Uint64"
| "kind_of_other KUintptr = Uintptr"
| "kind_of_other KFloat32 = Float32"
| "kind_of_other KFloat64 = Float64"
| "kind_of_other KComplex64 = Complex64"
| "kind_of_other KComplex128 = Complex128"
| "kind_of_other KChan = Chan"
| "kind_of_other KFunc = Func"
| "kind_of_other KInterface = Interface"
| "kind_of_other KMap = Map"
| "kind_of_other KPointer = Pointer"
| "kind_of_other KUnsafePointer = UnsafePointer"

fun Kind :: "val \<Rightarrow> kind" where
  "Kind (StringV s) = String"
| "Kind (IntV k n) = kind_of_int k"
| "Kind (BoolV b) = Bool"
| "Kind (StructV fs) = Struct"
| "Kind (ArrayV xs) = Array"
| "Kind (SliceV xs) = Slice"
| "Kind (OtherV k) = kind_of_other k"

fun bits :: "int_kind \<Rightarrow> nat" where
  "bits KInt = intSize"
| "bits KInt8 = 8"
| "bits KInt16 = 16"
| "bits KInt32 = 32"
| "bits KInt64 = 64"

text \<open>
  \<^verbatim>\<open>reflect.Value.SetInt\<close> stores \<^verbatim>\<open>int8(x)\<close>, \<^verbatim>\<open>int16(x)\<close>, ... according to the
  kind: a conversion that keeps the low bits, read as a two's-complement number.
\<close>

definition truncate_int :: "nat \<Rightarrow> int \<Rightarrow> int" where
  "truncate_int w x = (x + 2 ^ (w - 1)) mod 2 ^ w - 2 ^ (w - 1)"

definition SetInt :: "int_kind \<Rightarrow> int \<Rightarrow> val" where
  "SetInt k x = IntV k (truncate_int (bits k) x)"

section \<open>The recursive binder\<close>

text \<open>
  The two errors the binder builds with \<^verbatim>\<open>fmt.Errorf\<close>, kept as the arguments of their
  format strings: \<^verbatim>\<open>"failed to parse environment key: %s to int: %w"\<close> (and the same
  with \<open>bool\<close>) is \<open>CoercionError key kind cause\<close>, and
  \<^verbatim>\<open>"failed to parse key: %s, unsupported field type: %s"\<close> is
  \<open>UnsupportedTypeError key kind\<close>.
\<close>

datatype error =
    CoercionError string string NumError
  | UnsupportedTypeError string kind

text \<open>
  The \<^verbatim>\<open>switch val.Kind()\<close> of lines 71-88, entered with the value found in the
  environment. The result is the value after the call and the error returned.
\<close>

fun assign :: "val \<Rightarrow> string \<Rightarrow> string \<Rightarrow> val \<times> error option" where
  "assign (StringV old) environmentKey environmentValue = (StringV environmentValue, None)"
| "assign (IntV k old) environmentKey environmentValue =
     (case Atoi environmentValue of
        Inl err \<Rightarrow> (IntV k old, Some (CoercionError environmentKey ''int'' err))
      | Inr n \<Rightarrow> (SetInt k n, None))"
| "assign (BoolV old) environmentKey environmentValue =
     (case ParseBool environmentValue of
        Inl err \<Rightarrow> (BoolV old, Some (CoercionError environmentKey ''bool'' err))
      | Inr b \<Rightarrow> (BoolV b, None))"
| "assign v environmentKey environmentValue =
     (v, Some (UnsupportedTypeError environmentKey (Kind v)))"

text \<open>Lines 70-90: the lookup, made for the node whatever its kind.\<close>

definition lookup_and_assign :: "env \<Rightarrow> val \<Rightarrow> string \<Rightarrow> val \<times> error option" where
  "lookup_and_assign environ v environmentKey =
     (case LookupEnv environ environmentKey of
        None \<Rightarrow> (v, None)
      | Some environmentValue \<Rightarrow> assign v environmentKey environmentValue)"

text \<open>
  \<^verbatim>\<open>loadRecursive\<close>, with the two loops as \<open>loadFields\<close> (lines 44-55) and
  \<open>loadElems\<close> (lines 61-66). A loop that meets an error returns at once, with the
  fields or elements as they are at that moment.
\<close>

fun loadRecursive :: "unicode_tables \<Rightarrow> env \<Rightarrow> val \<Rightarrow> string \<Rightarrow> val \<times> error option"
  and loadFields :: "unicode_tables \<Rightarrow> env \<Rightarrow> string \<Rightarrow> field list \<Rightarrow> field list \<times> error option"
  and loadElems :: "unicode_tables \<Rightarrow> env \<Rightarrow> string \<Rightarrow> val list \<Rightarrow> val list \<times> error option"
where
  "loadRecursive tab environ (StructV fs) environmentKey =
     (case loadFields tab environ environmentKey fs of
        (fs', Some err) \<Rightarrow> (StructV fs', Some err)
      | (fs', None) \<Rightarrow> lookup_and_assign environ (StructV fs') environmentKey)"
| "loadRecursive tab environ (ArrayV xs) environmentKey =
     (case loadElems tab environ environmentKey xs of
        (xs', Some err) \<Rightarrow> (ArrayV xs', Some err)
      | (xs', None) \<Rightarrow> lookup_and_assign environ (ArrayV xs') environmentKey)"
| "loadRecursive tab environ (SliceV xs) environmentKey =
     (case loadElems tab environ environmentKey xs of
        (xs', Some err) \<Rightarrow> (SliceV xs', Some err)
      | (xs', None) \<Rightarrow> lookup_and_assign environ (SliceV xs') environmentKey)"
| "loadRecursive tab environ (StringV s) environmentKey =
     lookup_and_assign environ (StringV s) environmentKey"
| "loadRecursive tab environ (IntV k n) environmentKey =
     lookup_and_assign environ (IntV k n) environmentKey"
| "loadRecursive tab environ (BoolV b) environmentKey =
     lookup_and_assign environ (BoolV b) environmentKey"
| "loadRecursive tab environ (OtherV k) environmentKey =
     lookup_and_assign environ (OtherV k) environmentKey"
| "loadFields tab environ environmentKey [] = ([], None)"
| "loadFields tab environ environmentKey (StructField fieldName settable v # fs) =
     (if \<not> settable then
        (case loadFields tab environ environmentKey fs of
           (fs', err) \<Rightarrow> (StructField fieldName settable v # fs', err))
      else
        (case loadRecursive tab environ v (camelToUpperSnakeCase tab fieldName environmentKey) of
           (v', Some err) \<Rightarrow> (StructField fieldName settable v' # fs, Some err)
         | (v', None) \<Rightarrow>
             (case loadFields tab environ environmentKey fs of
                (fs', err) \<Rightarrow> (StructField fieldName settable v' # fs', err))))"
| "loadElems tab environ environmentKey [] = ([], None)"
| "loadElems tab environ environmentKey (x # xs) =
     (case loadRecursive tab environ x environmentKey of
        (x', Some err) \<Rightarrow> (x' # xs, Some err)
      | (x', None) \<Rightarrow>
          (case loadElems tab environ environmentKey xs of
             (xs', err) \<Rightarrow> (x' # xs', err)))"

text \<open>
  The two entry points. The first argument of the source is a pointer; the model takes the
  value it points to. \<^verbatim>\<open>LoadFromEnvironment\<close> returns the error,
  \<^verbatim>\<open>MustLoadFromEnvironment\<close> panics with it.
\<close>

definition LoadFromEnvironment :: "unicode_tables \<Rightarrow> env \<Rightarrow> val \<Rightarrow> string \<Rightarrow> val \<times> error option" where
  "LoadFromEnvironment tab environ pt prefix =
     (case loadRecursive tab environ pt prefix of
        (v, Some err) \<Rightarrow> (v, Some err)
      | (v, None) \<Rightarrow> (v, None))"

datatype outcome = Returned | Panicked error

definition MustLoadFromEnvironment :: "unicode_tables \<Rightarrow> env \<Rightarrow> val \<Rightarrow> string \<Rightarrow> val \<times> outcome" where
  "MustLoadFromEnvironment tab environ pt prefix =
     (case loadRecursive tab environ pt prefix of
        (v, Some err) \<Rightarrow> (v, Panicked err)
      | (v, None) \<Rightarrow> (v, Returned))"

section \<open>The keys of a traversal\<close>

text \<open>
  The environment keys that a traversal of a value derives, in the order in which it looks
  them up when no error stops it: for a struct the keys of its settable fields, each under
  the name derived for the field, and then the key of the struct itself; for an array or a
  slice the keys of its elements, all under the key of the sequence, and then that key; for
  any other value its key.
\<close>

fun derivedKeys :: "unicode_tables \<Rightarrow> val \<Rightarrow> string \<Rightarrow> string list"
  and fieldKeys :: "unicode_tables \<Rightarrow> string \<Rightarrow> field list \<Rightarrow> string list"
  and elemKeys :: "unicode_tables \<Rightarrow> string \<Rightarrow> val list \<Rightarrow> string list"
where
  "derivedKeys tab (StructV fs) key = fieldKeys tab key fs @ [key]"
| "derivedKeys tab (ArrayV xs) key = elemKeys tab key xs @ [key]"
| "derivedKeys tab (SliceV xs) key = elemKeys tab key xs @ [key]"
| "derivedKeys tab (StringV s) key = [key]"
| "derivedKeys tab (IntV k n) key = [key]"
| "derivedKeys tab (BoolV b) key = [key]"
| "derivedKeys tab (OtherV k) key = [key]"
| "fieldKeys tab key [] = []"
| "fieldKeys tab key (StructField fieldName settable v # fs) =
     (if settable then derivedKeys tab v (camelToUpperSnakeCase tab fieldName key) else [])
       @ fieldKeys tab key fs"
| "elemKeys tab key [] = []"
| "elemKeys tab key (x # xs) = derivedKeys tab x key @ elemKeys tab key xs"

text \<open>
  What one field is after the binder has passed it without an error: a settable field holds
  the value its own traversal leaves, any other field is as it was.
\<close>

definition boundField :: "unicode_tables \<Rightarrow> env \<Rightarrow> string \<Rightarrow> field \<Rightarrow> field" where
  "boundField tab environ key f =
     (if CanSet f
      then StructField (Name f) True
             (fst (loadRecursive tab environ (Value f) (camelToUpperSnakeCase tab (Name f) key)))
      else f)"

definition fieldError :: "unicode_tables \<Rightarrow> env \<Rightarrow> string \<Rightarrow> field \<Rightarrow> error option" where
  "fieldError tab environ key f =
     (if CanSet f
      then snd (loadRecursive tab environ (Value f) (camelToUpperSnakeCase tab (Name f) key))
      else None)"

section \<open>Auxiliary facts\<close>

subsection \<open>Reading a string rune by rune\<close>

lemma DecodeRuneInString_width: "s \<noteq> [] \<Longrightarrow> 1 \<le> snd (DecodeRuneInString s)"
  by (cases s) (auto simp add: DecodeRuneInString_def Let_def split: option.splits)

lemma DecodeRuneInString_ascii:
  "(of_char c :: nat) < 128 \<Longrightarrow> DecodeRuneInString (c # cs) = (of_char c, 1)"
  by (simp add: DecodeRuneInString_def)

lemma range_string_positions:
  "p \<in> set (range_string pos s) \<Longrightarrow> pos \<le> fst p"
proof (induction pos s arbitrary: p rule: range_string.induct)
  case (1 pos)
  then show ?case by simp
next
  case (2 pos c cs)
  let ?w = "snd (DecodeRuneInString (c # cs))"
  from "2.prems" have "p = (pos, fst (DecodeRuneInString (c # cs)))
      \<or> p \<in> set (range_string (pos + ?w) (drop (?w - 1) cs))"
    by (simp add: Let_def)
  then show ?case
  proof
    assume "p = (pos, fst (DecodeRuneInString (c # cs)))"
    then show ?thesis by simp
  next
    assume "p \<in> set (range_string (pos + ?w) (drop (?w - 1) cs))"
    then have "pos + ?w \<le> fst p" by (rule "2.IH" [OF refl])
    then show ?thesis by simp
  qed
qed

lemma range_string_first:
  "range_string 0 (c # cs) = (0, r) # rest \<Longrightarrow> list_all (\<lambda>p. fst p \<noteq> 0) rest"
proof -
  assume a: "range_string 0 (c # cs) = (0, r) # rest"
  let ?w = "snd (DecodeRuneInString (c # cs))"
  have w: "1 \<le> ?w" by (rule DecodeRuneInString_width) simp
  from a have "rest = range_string (0 + ?w) (drop (?w - 1) cs)" by (simp add: Let_def)
  then have "\<forall>p \<in> set rest. ?w \<le> fst p"
    using range_string_positions [of _ "0 + ?w" "drop (?w - 1) cs"] by simp
  with w show ?thesis by (fastforce simp add: list_all_iff)
qed

lemma range_string_Cons:
  "\<exists>r rest. range_string pos (c # cs) = (pos, r) # rest"
  by (simp add: Let_def)

lemma range_string_ascii:
  "list_all (\<lambda>c. (of_char c :: nat) < 128) s \<Longrightarrow>
     map snd (range_string pos s) = map of_char s"
proof (induction s arbitrary: pos)
  case Nil
  then show ?case by simp
next
  case (Cons c cs)
  then have d: "DecodeRuneInString (c # cs) = (of_char c, 1)"
    by (simp add: DecodeRuneInString_ascii)
  from Cons show ?case by (simp add: d)
qed

subsection \<open>The loop of the name deriver\<close>

lemma snake_loop_positions:
  "list_all (\<lambda>p. fst p \<noteq> 0) rest \<Longrightarrow> pre \<noteq> [] \<Longrightarrow>
   snake_loop tab s (IsUpper tab (last pre)) rest =
     s @ concat (map (\<lambda>i. (if transition_at tab (pre @ map snd rest) i then ''_'' else [])
                           @ string_of_rune (upper_form tab ((pre @ map snd rest) ! i)))
                  [length pre..<length pre + length rest])"
proof (induction rest arbitrary: pre s)
  case Nil
  then show ?case by simp
next
  case (Cons pc rest)
  obtain pos c where pc: "pc = (pos, c)" by (cases pc)
  then have sc: "snd pc = c" by simp
  from pc Cons.prems have pos: "pos \<noteq> 0" and nz: "list_all (\<lambda>p. fst p \<noteq> 0) rest" by simp_all
  let ?w = "pre @ c # map snd rest"
  let ?g = "\<lambda>i. (if transition_at tab ?w i then ''_'' else [])
                  @ string_of_rune (upper_form tab (?w ! i))"
  define T where "T = concat (map ?g [Suc (length pre)..<Suc (length pre) + length rest])"
  have step: "snake_loop tab s' (IsUpper tab c) rest = s' @ T" for s'
    using Cons.IH [of "pre @ [c]" s'] nz by (simp add: T_def)
  have tr: "transition_at tab ?w (length pre) = (\<not> IsUpper tab (last pre) \<and> IsUpper tab c)"
    using Cons.prems(2)
    by (cases pre rule: rev_cases) (simp_all add: transition_at_def nth_append)
  have up: "[length pre..<length pre + length (pc # rest)] =
      length pre # [Suc (length pre)..<Suc (length pre) + length rest]"
    by (simp add: upt_rec)
  have hd: "?g (length pre) =
      (if \<not> IsUpper tab (last pre) \<and> IsUpper tab c then ''_'' else [])
        @ string_of_rune (upper_form tab c)"
    by (simp add: tr)
  have rhs: "concat (map (\<lambda>i. (if transition_at tab (pre @ map snd (pc # rest)) i then ''_'' else [])
                           @ string_of_rune (upper_form tab ((pre @ map snd (pc # rest)) ! i)))
                  [length pre..<length pre + length (pc # rest)]) =
      (if \<not> IsUpper tab (last pre) \<and> IsUpper tab c then ''_'' else [])
        @ string_of_rune (upper_form tab c) @ T"
    by (simp only: list.map sc up concat.simps hd T_def append_assoc)
  have lhs: "snake_loop tab s (IsUpper tab (last pre)) (pc # rest) =
      (if IsUpper tab c \<and> \<not> IsUpper tab (last pre) then s @ ''_'' else s)
        @ string_of_rune (upper_form tab c) @ T"
  proof (cases "IsUpper tab c")
    case True
    with step [of "(if \<not> IsUpper tab (last pre) then s @ ''_'' else s) @ string_of_rune c"] pos
    show ?thesis by (simp add: pc upper_form_def)
  next
    case False
    with step [of "s @ string_of_rune (ToUpper tab c)"] pos
    show ?thesis by (simp add: pc upper_form_def)
  qed
  show ?case by (simp only: lhs rhs) simp
qed

lemma snake_loop_derived_name:
  "snake_loop tab [] False (range_string 0 w) = derived_name tab w"
proof (cases w)
  case Nil
  then show ?thesis by (simp add: derived_name_def runes_def)
next
  case (Cons c cs)
  then obtain r rest where rs: "range_string 0 w = (0, r) # rest"
    using range_string_Cons [of 0 c cs] by auto
  then have nz: "list_all (\<lambda>p. fst p \<noteq> 0) rest"
    using range_string_first [of c cs r rest] Cons by simp
  let ?w = "r # map snd rest"
  let ?g = "\<lambda>i. (if transition_at tab ?w i then ''_'' else [])
                  @ string_of_rune (upper_form tab (?w ! i))"
  define T where "T = concat (map ?g [1..<1 + length rest])"
  have tail: "snake_loop tab s' (IsUpper tab r) rest = s' @ T" for s'
    using snake_loop_positions [OF nz, of "[r]" tab s'] by (simp add: T_def)
  have up: "[0..<length ?w] = 0 # [1..<1 + length rest]"
    by (simp add: upt_rec)
  have g0: "?g 0 = string_of_rune (upper_form tab r)"
    by (simp add: transition_at_def)
  have rhs: "concat (map ?g [0..<length ?w]) = string_of_rune (upper_form tab r) @ T"
    by (simp only: up list.map concat.simps g0 T_def)
  have lhs: "snake_loop tab [] False ((0, r) # rest) = string_of_rune (upper_form tab r) @ T"
  proof (cases "IsUpper tab r")
    case True
    with tail [of "string_of_rune r"] show ?thesis by (simp add: upper_form_def)
  next
    case False
    with tail [of "string_of_rune (ToUpper tab r)"] show ?thesis by (simp add: upper_form_def)
  qed
  have "derived_name tab w = concat (map ?g [0..<length ?w])"
    by (simp only: derived_name_def runes_def rs list.map snd_conv)
  with lhs rhs rs show ?thesis by simp
qed

lemma strings_ToUpper_upper_case: "strings_ToUpper tab s = upper_case tab s"
proof (cases "list_all (\<lambda>c. (of_char c :: nat) < 128) s")
  case True
  have "list_all (\<lambda>c. (of_char c :: nat) < 128) t \<Longrightarrow>
        concat (map (\<lambda>r. string_of_rune (ToUpper tab r)) (map of_char t)) =
        map (\<lambda>c. if 97 \<le> (of_char c :: nat) \<and> (of_char c :: nat) \<le> 122
                  then char_of ((of_char c :: nat) - 32) else c) t" for t
    by (induction t) (auto simp add: ToUpper_def string_of_rune_def)
  with True show ?thesis
    by (simp add: strings_ToUpper_def upper_case_def runes_def range_string_ascii)
next
  case False
  have "concat (map (\<lambda>(pos, c). string_of_rune (ToUpper tab c)) ps) =
        concat (map (\<lambda>r. string_of_rune (ToUpper tab r)) (map snd ps))"
    for ps :: "(nat \<times> rune) list"
    by (induction ps) auto
  then have "strings_Map (ToUpper tab) s = upper_case tab s"
    by (simp only: strings_Map_def upper_case_def runes_def)
  with False show ?thesis by (simp add: strings_ToUpper_def)
qed

lemma camelToUpperSnakeCase_derive:
  "camelToUpperSnakeCase tab inp prefix = derive tab inp prefix"
  by (simp add: camelToUpperSnakeCase_def derive_def strings_ToUpper_upper_case
        snake_loop_derived_name Let_def)

subsection \<open>The traversal\<close>

lemma loadElems_all_ok:
  "list_all (\<lambda>x. snd (loadRecursive tab environ x key) = None) xs \<Longrightarrow>
     loadElems tab environ key xs = (map (\<lambda>x. fst (loadRecursive tab environ x key)) xs, None)"
proof (induction xs)
  case Nil
  then show ?case by simp
next
  case (Cons x xs)
  obtain x' where x: "loadRecursive tab environ x key = (x', None)"
    using Cons.prems by (cases "loadRecursive tab environ x key") simp
  from Cons show ?case by (simp add: x)
qed

lemma loadFields_all_ok:
  "list_all (\<lambda>f. fieldError tab environ key f = None) fs \<Longrightarrow>
     loadFields tab environ key fs = (map (boundField tab environ key) fs, None)"
proof (induction fs)
  case Nil
  then show ?case by simp
next
  case (Cons f fs)
  obtain n c v where f: "f = StructField n c v" by (cases f)
  show ?case
  proof (cases c)
    case True
    then obtain v' where v: "loadRecursive tab environ v (camelToUpperSnakeCase tab n key) = (v', None)"
      using Cons.prems f
      by (cases "loadRecursive tab environ v (camelToUpperSnakeCase tab n key)")
         (simp add: fieldError_def)
    from Cons True show ?thesis by (simp add: f v boundField_def)
  next
    case False
    with Cons show ?thesis by (simp add: f boundField_def)
  qed
qed

lemma loadElems_first_error:
  "list_all (\<lambda>x. snd (loadRecursive tab environ x key) = None) pre \<Longrightarrow>
   loadRecursive tab environ x key = (x', Some err) \<Longrightarrow>
     loadElems tab environ key (pre @ x # post) =
       (map (\<lambda>x. fst (loadRecursive tab environ x key)) pre @ x' # post, Some err)"
proof (induction pre)
  case Nil
  then show ?case by simp
next
  case (Cons y pre)
  obtain y' where y: "loadRecursive tab environ y key = (y', None)"
    using Cons.prems by (cases "loadRecursive tab environ y key") simp
  from Cons show ?case by (simp add: y)
qed

lemma loadFields_first_error:
  "list_all (\<lambda>f. fieldError tab environ key f = None) pre \<Longrightarrow>
   loadRecursive tab environ v (camelToUpperSnakeCase tab n key) = (v', Some err) \<Longrightarrow>
     loadFields tab environ key (pre @ StructField n True v # post) =
       (map (boundField tab environ key) pre @ StructField n True v' # post, Some err)"
proof (induction pre)
  case Nil
  then show ?case by simp
next
  case (Cons f pre)
  obtain m c w where f: "f = StructField m c w" by (cases f)
  show ?case
  proof (cases c)
    case True
    then obtain w' where w: "loadRecursive tab environ w (camelToUpperSnakeCase tab m key) = (w', None)"
      using Cons.prems f
      by (cases "loadRecursive tab environ w (camelToUpperSnakeCase tab m key)")
         (simp add: fieldError_def)
    from Cons True show ?thesis by (simp add: f w boundField_def)
  next
    case False
    with Cons show ?thesis by (simp add: f boundField_def)
  qed
qed

lemma absent_keys_unchanged:
  "list_all (\<lambda>k. LookupEnv environ k = None) (derivedKeys tab v key) \<longrightarrow>
      loadRecursive tab environ v key = (v, None)"
  "list_all (\<lambda>k. LookupEnv environ k = None) (fieldKeys tab key fs) \<longrightarrow>
      loadFields tab environ key fs = (fs, None)"
  "list_all (\<lambda>k. LookupEnv environ k = None) (elemKeys tab key xs) \<longrightarrow>
      loadElems tab environ key xs = (xs, None)"
proof (induction tab environ v key and tab environ key fs and tab environ key xs
       rule: loadRecursive_loadFields_loadElems.induct)
qed (auto simp add: lookup_and_assign_def)

lemma LoadFromEnvironment_loadRecursive:
  "LoadFromEnvironment tab environ pt prefix = loadRecursive tab environ pt prefix"
  by (cases "loadRecursive tab environ pt prefix")
     (simp add: LoadFromEnvironment_def split: option.split)

subsection \<open>What \<open>Atoi\<close> accepts\<close>

lemma digit_val_range: "is_digit c \<Longrightarrow> 0 \<le> digit_val c \<and> digit_val c \<le> 9"
  by (auto simp add: is_digit_def digit_val_def)

lemma foldl_digits_lower:
  "list_all is_digit ds \<Longrightarrow> 0 \<le> n \<Longrightarrow> n \<le> foldl (\<lambda>n c. n * 10 + digit_val c) n ds"
proof (induction ds arbitrary: n)
  case Nil
  then show ?case by simp
next
  case (Cons c ds)
  from Cons.prems have d: "0 \<le> digit_val c" by (simp add: digit_val_range)
  with Cons.prems have "n \<le> n * 10 + digit_val c" by simp
  moreover have "n * 10 + digit_val c \<le> foldl (\<lambda>n c. n * 10 + digit_val c) (n * 10 + digit_val c) ds"
    using Cons.prems d by (intro Cons.IH) simp_all
  ultimately show ?case by simp
qed

lemma foldl_digits_upper:
  "list_all is_digit ds \<Longrightarrow> 0 \<le> n \<Longrightarrow>
     foldl (\<lambda>n c. n * 10 + digit_val c) n ds < (n + 1) * 10 ^ length ds"
proof (induction ds arbitrary: n)
  case Nil
  then show ?case by simp
next
  case (Cons c ds)
  from Cons.prems have d: "0 \<le> digit_val c" "digit_val c \<le> 9"
    by (simp_all add: digit_val_range)
  have "foldl (\<lambda>n c. n * 10 + digit_val c) (n * 10 + digit_val c) ds
      < (n * 10 + digit_val c + 1) * 10 ^ length ds"
    using Cons.prems d by (intro Cons.IH) simp_all
  also have "\<dots> \<le> ((n + 1) * 10) * 10 ^ length ds"
    using d by (intro mult_right_mono) simp_all
  finally show ?case by (simp add: algebra_simps)
qed

lemma Atoi_fast_loop_eq:
  "Atoi_fast_loop n ds =
     (if list_all is_digit ds then Inr (foldl (\<lambda>n c. n * 10 + digit_val c) n ds)
      else Inl ErrSyntax)"
  by (induction ds arbitrary: n) simp_all

lemma ParseUint_loop_step:
  assumes "is_digit c" "0 \<le> n" "n < 1844674407370955162"
    and "n * 10 + digit_val c < 18446744073709551616"
  shows "ParseUint_loop 1844674407370955162 18446744073709551615 n (c # ds) =
         ParseUint_loop 1844674407370955162 18446744073709551615 (n * 10 + digit_val c) ds"
proof -
  from assms have d: "0 \<le> digit_val c" by (simp add: digit_val_range)
  have "(n * 10 + digit_val c) mod 18446744073709551616 = n * 10 + digit_val c"
    using assms d by (intro mod_pos_pos_trivial) simp_all
  with assms d show ?thesis by (simp add: Let_def)
qed

lemma ParseUint_loop_overflow:
  assumes "is_digit c" "0 \<le> n"
    and "1844674407370955162 \<le> n \<or> 18446744073709551616 \<le> n * 10 + digit_val c"
  shows "ParseUint_loop 1844674407370955162 18446744073709551615 n (c # ds) = Inl ErrRange"
proof (cases "1844674407370955162 \<le> n")
  case True
  with assms show ?thesis by simp
next
  case False
  with assms have over: "18446744073709551616 \<le> n * 10 + digit_val c" by simp
  from assms have d: "0 \<le> digit_val c" "digit_val c \<le> 9" by (simp_all add: digit_val_range)
  from False d have "n * 10 + digit_val c < 2 * 18446744073709551616" by simp
  with over have "(n * 10 + digit_val c - 18446744073709551616) mod 18446744073709551616
      = n * 10 + digit_val c - 18446744073709551616"
    by (intro mod_pos_pos_trivial) simp_all
  then have "(n * 10 + digit_val c) mod 18446744073709551616
      = n * 10 + digit_val c - 18446744073709551616"
    by (simp only: minus_mod_self2)
  with d have "(n * 10 + digit_val c) mod 18446744073709551616 < n * 10" by simp
  with assms False show ?thesis by (simp add: Let_def)
qed

lemma ParseUint_loop_Inr:
  "0 \<le> n \<Longrightarrow> n < 18446744073709551616 \<Longrightarrow>
   (ParseUint_loop 1844674407370955162 18446744073709551615 n ds = Inr m) =
     (list_all is_digit ds \<and> m = foldl (\<lambda>n c. n * 10 + digit_val c) n ds
        \<and> m < 18446744073709551616)"
proof (induction ds arbitrary: n)
  case Nil
  then show ?case by auto
next
  case (Cons c ds)
  let ?f = "\<lambda>n c. n * 10 + digit_val c"
  let ?n' = "n * 10 + digit_val c"
  show ?case
  proof (cases "is_digit c")
    case False
    then show ?thesis by simp
  next
    case True
    then have d: "0 \<le> digit_val c" "digit_val c \<le> 9" by (simp_all add: digit_val_range)
    have low: "list_all is_digit ds \<Longrightarrow> ?n' \<le> foldl ?f ?n' ds"
      using Cons.prems d by (intro foldl_digits_lower) simp_all
    show ?thesis
    proof (cases "n < 1844674407370955162 \<and> ?n' < 18446744073709551616")
      case ok: True
      then have "ParseUint_loop 1844674407370955162 18446744073709551615 n (c # ds) =
         ParseUint_loop 1844674407370955162 18446744073709551615 ?n' ds"
        using True Cons.prems by (intro ParseUint_loop_step) simp_all
      moreover have "(ParseUint_loop 1844674407370955162 18446744073709551615 ?n' ds = Inr m) =
         (list_all is_digit ds \<and> m = foldl ?f ?n' ds \<and> m < 18446744073709551616)"
        using Cons.prems d ok by (intro Cons.IH) simp_all
      ultimately show ?thesis using True by simp
    next
      case over: False
      then have "1844674407370955162 \<le> n \<or> 18446744073709551616 \<le> ?n'" by auto
      then have r: "ParseUint_loop 1844674407370955162 18446744073709551615 n (c # ds) = Inl ErrRange"
        using True Cons.prems by (intro ParseUint_loop_overflow) simp_all
      from over d have "18446744073709551616 \<le> ?n'" by auto
      with low have "list_all is_digit ds \<Longrightarrow> \<not> foldl ?f ?n' ds < 18446744073709551616"
        by fastforce
      then have "\<not> (list_all is_digit (c # ds) \<and> m = foldl ?f n (c # ds) \<and> m < 18446744073709551616)"
        by auto
      with r show ?thesis by simp
    qed
  qed
qed

lemma ParseUint_Inr:
  "(ParseUint ds 64 = Inr m) =
     (ds \<noteq> [] \<and> list_all is_digit ds \<and> m = decimal ds \<and> m < 18446744073709551616)"
  using ParseUint_loop_Inr [of 0 ds m] by (auto simp add: ParseUint_def decimal_def)

lemma decimal_nonneg: "list_all is_digit ds \<Longrightarrow> 0 \<le> decimal ds"
  using foldl_digits_lower [of ds 0] by (simp add: decimal_def)

lemma decimal_short:
  assumes "list_all is_digit ds" "length ds < 19"
  shows "decimal ds < 1000000000000000000"
proof -
  have "decimal ds < (0 + 1) * 10 ^ length ds"
    unfolding decimal_def using assms by (intro foldl_digits_upper) simp_all
  also have "(10::int) ^ length ds \<le> 10 ^ 18"
    using assms by (intro power_increasing) simp_all
  finally show ?thesis by simp
qed

lemma base10_unsigned:
  "c \<noteq> CHR ''+'' \<Longrightarrow> c \<noteq> CHR ''-'' \<Longrightarrow>
     base10 (c # cs) =
       (if list_all is_digit (c # cs) then Some (decimal (c # cs)) else None)"
  by (simp add: base10_def Let_def)

lemma base10_plus:
  "base10 (CHR ''+'' # cs) =
     (if cs \<noteq> [] \<and> list_all is_digit cs then Some (decimal cs) else None)"
  by (simp add: base10_def)

lemma base10_minus:
  "base10 (CHR ''-'' # cs) =
     (if cs \<noteq> [] \<and> list_all is_digit cs then Some (- decimal cs) else None)"
  by (simp add: base10_def)

lemma ParseInt_Inr:
  "(ParseInt s = Inr n) =
     (base10 s = Some n \<and> - 9223372036854775808 \<le> n \<and> n < 9223372036854775808)"
proof (cases s)
  case Nil
  then show ?thesis by (simp add: ParseInt_def base10_def)
next
  case (Cons c cs)
  consider (minus) "c = CHR ''-''" | (plus) "c = CHR ''+''"
    | (none) "c \<noteq> CHR ''+''" "c \<noteq> CHR ''-''" by blast
  then show ?thesis
  proof cases
    case minus
    have "(ParseInt (CHR ''-'' # cs) = Inr n) =
        (\<exists>un. ParseUint cs 64 = Inr un \<and> un \<le> 9223372036854775808 \<and> n = - un)"
      by (auto simp add: ParseInt_def intSize_def split: sum.splits num_err.splits)
    also have "\<dots> = (cs \<noteq> [] \<and> list_all is_digit cs
        \<and> decimal cs \<le> 9223372036854775808 \<and> n = - decimal cs)"
      by (auto simp add: ParseUint_Inr)
    also have "\<dots> = (base10 (CHR ''-'' # cs) = Some n
        \<and> - 9223372036854775808 \<le> n \<and> n < 9223372036854775808)"
      using decimal_nonneg [of cs] by (auto simp add: base10_minus)
    finally show ?thesis by (simp add: Cons minus)
  next
    case plus
    have "(ParseInt (CHR ''+'' # cs) = Inr n) =
        (\<exists>un. ParseUint cs 64 = Inr un \<and> un < 9223372036854775808 \<and> n = un)"
      by (auto simp add: ParseInt_def intSize_def split: sum.splits num_err.splits)
    also have "\<dots> = (cs \<noteq> [] \<and> list_all is_digit cs
        \<and> decimal cs < 9223372036854775808 \<and> n = decimal cs)"
      by (auto simp add: ParseUint_Inr)
    also have "\<dots> = (base10 (CHR ''+'' # cs) = Some n
        \<and> - 9223372036854775808 \<le> n \<and> n < 9223372036854775808)"
      using decimal_nonneg [of cs] by (auto simp add: base10_plus)
    finally show ?thesis by (simp add: Cons plus)
  next
    case none
    have "(ParseInt (c # cs) = Inr n) =
        (\<exists>un. ParseUint (c # cs) 64 = Inr un \<and> un < 9223372036854775808 \<and> n = un)"
      using none
      by (auto simp add: ParseInt_def intSize_def split: sum.splits num_err.splits)
    also have "\<dots> = (list_all is_digit (c # cs)
        \<and> decimal (c # cs) < 9223372036854775808 \<and> n = decimal (c # cs))"
      by (auto simp add: ParseUint_Inr)
    also have "\<dots> = (base10 (c # cs) = Some n
        \<and> - 9223372036854775808 \<le> n \<and> n < 9223372036854775808)"
      using decimal_nonneg [of "c # cs"] none by (auto simp add: base10_unsigned)
    finally show ?thesis by (simp add: Cons)
  qed
qed

lemma Atoi_fast_Inr:
  assumes "0 < length s" "length s < 19"
  shows "(Atoi_raw s = Inr n) =
     (base10 s = Some n \<and> - 9223372036854775808 \<le> n \<and> n < 9223372036854775808)"
proof -
  from assms obtain c cs where s: "s = c # cs" by (cases s) auto
  with assms have len: "length cs < 19" "length (c # cs) < 19" by simp_all
  consider (minus) "c = CHR ''-''" | (plus) "c = CHR ''+''"
    | (none) "c \<noteq> CHR ''+''" "c \<noteq> CHR ''-''" by blast
  then show ?thesis
  proof cases
    case minus
    have "(Atoi_raw (CHR ''-'' # cs) = Inr n) =
        (cs \<noteq> [] \<and> list_all is_digit cs \<and> n = - decimal cs)"
      using len by (auto simp add: Atoi_raw_def Atoi_fast_loop_eq decimal_def)
    also have "\<dots> = (base10 (CHR ''-'' # cs) = Some n
        \<and> - 9223372036854775808 \<le> n \<and> n < 9223372036854775808)"
      using decimal_nonneg [of cs] decimal_short [of cs] len
      by (auto simp add: base10_minus)
    finally show ?thesis by (simp add: s minus)
  next
    case plus
    have "(Atoi_raw (CHR ''+'' # cs) = Inr n) =
        (cs \<noteq> [] \<and> list_all is_digit cs \<and> n = decimal cs)"
      using len by (auto simp add: Atoi_raw_def Atoi_fast_loop_eq decimal_def)
    also have "\<dots> = (base10 (CHR ''+'' # cs) = Some n
        \<and> - 9223372036854775808 \<le> n \<and> n < 9223372036854775808)"
      using decimal_nonneg [of cs] decimal_short [of cs] len
      by (auto simp add: base10_plus)
    finally show ?thesis by (simp add: s plus)
  next
    case none
    have "(Atoi_raw (c # cs) = Inr n) =
        (list_all is_digit (c # cs) \<and> n = decimal (c # cs))"
      using len none
      by (auto simp add: Atoi_raw_def Atoi_fast_loop_eq decimal_def Let_def
            simp del: foldl_Cons split: if_splits)
    also have "\<dots> = (base10 (c # cs) = Some n
        \<and> - 9223372036854775808 \<le> n \<and> n < 9223372036854775808)"
      using decimal_nonneg [of "c # cs"] decimal_short [of "c # cs"] len none
      by (auto simp add: base10_unsigned)
    finally show ?thesis by (simp add: s)
  qed
qed

lemma Atoi_Inr:
  "(Atoi s = Inr n) =
     (base10 s = Some n \<and> - 9223372036854775808 \<le> n \<and> n < 9223372036854775808)"
proof -
  have "(Atoi s = Inr n) = (Atoi_raw s = Inr n)"
    by (simp add: Atoi_def split: sum.split)
  also have "\<dots> = (base10 s = Some n \<and> - 9223372036854775808 \<le> n \<and> n < 9223372036854775808)"
  proof (cases "0 < length s \<and> length s < 19")
    case True
    then show ?thesis by (simp add: Atoi_fast_Inr)
  next
    case False
    then have "Atoi_raw s = ParseInt s" by (auto simp add: Atoi_raw_def)
    then show ?thesis by (simp add: ParseInt_Inr)
  qed
  finally show ?thesis .
qed

lemma Atoi_Inl: "Atoi s = Inl err \<Longrightarrow> \<exists>e. err = NumError ''Atoi'' s e"
  by (auto simp add: Atoi_def split: sum.splits)

lemma truncate_int_fits:
  "0 < w \<Longrightarrow> - (2 ^ (w - 1)) \<le> x \<Longrightarrow> x < 2 ^ (w - 1) \<Longrightarrow> truncate_int w x = x"
proof -
  assume w: "0 < w" and lo: "- (2 ^ (w - 1)) \<le> x" and hi: "x < 2 ^ (w - 1)"
  have p: "(2::int) ^ w = 2 * 2 ^ (w - 1)"
    using w by (cases w) simp_all
  have "(x + 2 ^ (w - 1)) mod 2 ^ w = x + 2 ^ (w - 1)"
    using lo hi p by (intro mod_pos_pos_trivial) simp_all
  then show ?thesis by (simp add: truncate_int_def)
qed

section \<open>The name deriver against its reference definition\<close>

text \<open>
  Claim C1. \<^verbatim>\<open>camelToUpperSnakeCase\<close> computes the reference definition of the
  specification for every input, every prefix and every content of the Unicode tables:
  upper-case tokens joined by an underscore, a separator at each transition from a
  character that is not upper case to one that is and none inside a run of upper-case
  characters, the upper-cased prefix and an underscore in front when the prefix is not
  empty, and the upper-cased prefix alone when the input is empty. The five listed values
  are the ones it returns, whatever the tables hold; with the Latin-1 case data the name
  \<open>a\<close>, \<open>U+00E9\<close>, \<open>U+00C9\<close>, \<open>b\<close> gives \<open>A\<close>, \<open>U+00C9\<close>, \<open>_\<close>, \<open>U+00C9\<close>, \<open>B\<close>.
\<close>

theorem camelToUpperSnakeCase_refines_derive:
  "(\<forall>inp prefix. camelToUpperSnakeCase tab inp prefix = derive tab inp prefix)
   \<and> camelToUpperSnakeCase tab '''' ''FOO'' = ''FOO''
   \<and> camelToUpperSnakeCase tab ''Foo'' '''' = ''FOO''
   \<and> camelToUpperSnakeCase tab ''bar'' ''foo'' = ''FOO_BAR''
   \<and> camelToUpperSnakeCase tab ''FooBar'' '''' = ''FOO_BAR''
   \<and> camelToUpperSnakeCase tab ''FooBAR'' '''' = ''FOO_BAR''
   \<and> camelToUpperSnakeCase latin1_tables
         [CHR ''a'', CHR 0xC3, CHR 0xA9, CHR 0xC3, CHR 0x89, CHR ''b''] ''''
       = [CHR ''A'', CHR 0xC3, CHR 0x89, CHR ''_'', CHR 0xC3, CHR 0x89, CHR ''B'']"
proof -
  have refines: "\<forall>inp prefix. camelToUpperSnakeCase tab inp prefix = derive tab inp prefix"
    by (simp add: camelToUpperSnakeCase_derive)
  have e1: "camelToUpperSnakeCase tab '''' ''FOO'' = ''FOO''" by code_simp
  have e2: "camelToUpperSnakeCase tab ''Foo'' '''' = ''FOO''" by code_simp
  have e3: "camelToUpperSnakeCase tab ''bar'' ''foo'' = ''FOO_BAR''" by code_simp
  have e4: "camelToUpperSnakeCase tab ''FooBar'' '''' = ''FOO_BAR''" by code_simp
  have e5: "camelToUpperSnakeCase tab ''FooBAR'' '''' = ''FOO_BAR''" by code_simp
  have e6: "camelToUpperSnakeCase latin1_tables
         [CHR ''a'', CHR 0xC3, CHR 0xA9, CHR 0xC3, CHR 0x89, CHR ''b''] ''''
       = [CHR ''A'', CHR 0xC3, CHR 0x89, CHR ''_'', CHR 0xC3, CHR 0x89, CHR ''B'']"
    by code_simp
  from refines e1 e2 e3 e4 e5 e6 show ?thesis by (intro conjI)
qed

section \<open>Sequences\<close>

text \<open>
  Claim C2. At an array or slice node the binder recurses into every element with the key
  of the node itself, unchanged and without an index: when no element fails, each of the
  elements is what \<^verbatim>\<open>loadRecursive\<close> makes of it under that one key, and the node
  then goes through the lookup under the same key. For a field \<open>Foo\<close> holding a slice of
  two structs with a string field \<open>Bar\<close>, and \<open>FOO_BAR=qux\<close> in the environment, the
  call succeeds and both elements have \<open>Bar = qux\<close>.
\<close>

theorem sequence_elements_share_key:
  assumes "list_all (\<lambda>x. snd (loadRecursive tab environ x key) = None) xs"
  shows "loadElems tab environ key xs = (map (\<lambda>x. fst (loadRecursive tab environ x key)) xs, None)
    \<and> loadRecursive tab environ (SliceV xs) key =
        lookup_and_assign environ (SliceV (map (\<lambda>x. fst (loadRecursive tab environ x key)) xs)) key
    \<and> loadRecursive tab environ (ArrayV xs) key =
        lookup_and_assign environ (ArrayV (map (\<lambda>x. fst (loadRecursive tab environ x key)) xs)) key
    \<and> LoadFromEnvironment tab [''FOO_BAR'' \<mapsto> ''qux'']
          (StructV [StructField ''Foo'' True
             (SliceV [StructV [StructField ''Bar'' True (StringV ''baz'')],
                      StructV [StructField ''Bar'' True (StringV '''')]])]) ''''
        = (StructV [StructField ''Foo'' True
             (SliceV [StructV [StructField ''Bar'' True (StringV ''qux'')],
                      StructV [StructField ''Bar'' True (StringV ''qux'')]])], None)"
proof -
  have elems: "loadElems tab environ key xs =
      (map (\<lambda>x. fst (loadRecursive tab environ x key)) xs, None)"
    using assms by (rule loadElems_all_ok)
  have example: "LoadFromEnvironment tab [''FOO_BAR'' \<mapsto> ''qux'']
          (StructV [StructField ''Foo'' True
             (SliceV [StructV [StructField ''Bar'' True (StringV ''baz'')],
                      StructV [StructField ''Bar'' True (StringV '''')]])]) ''''
        = (StructV [StructField ''Foo'' True
             (SliceV [StructV [StructField ''Bar'' True (StringV ''qux'')],
                      StructV [StructField ''Bar'' True (StringV ''qux'')]])], None)"
    by code_simp
  show ?thesis
    using example by (simp add: elems)
qed

theorem sequence_elements_share_key_witness:
  "list_all (\<lambda>x. snd (loadRecursive latin1_tables [''FOO_BAR'' \<mapsto> ''qux''] x ''FOO'') = None)
     [StructV [StructField ''Bar'' True (StringV ''baz'')],
      StructV [StructField ''Bar'' True (StringV '''')]]
   \<and> loadElems latin1_tables [''FOO_BAR'' \<mapsto> ''qux''] ''FOO''
       [StructV [StructField ''Bar'' True (StringV ''baz'')],
        StructV [StructField ''Bar'' True (StringV '''')]]
     = ([StructV [StructField ''Bar'' True (StringV ''qux'')],
         StructV [StructField ''Bar'' True (StringV ''qux'')]], None)"
proof -
  let ?e = "[''FOO_BAR'' \<mapsto> ''qux'']"
  let ?xs = "[StructV [StructField ''Bar'' True (StringV ''baz'')],
              StructV [StructField ''Bar'' True (StringV '''')]]"
  have h: "list_all (\<lambda>x. snd (loadRecursive latin1_tables ?e x ''FOO'') = None) ?xs"
    by code_simp
  have m: "map (\<lambda>x. fst (loadRecursive latin1_tables ?e x ''FOO'')) ?xs =
      [StructV [StructField ''Bar'' True (StringV ''qux'')],
       StructV [StructField ''Bar'' True (StringV ''qux'')]]"
    by code_simp
  from sequence_elements_share_key [OF h]
  have "loadElems latin1_tables ?e ''FOO'' ?xs = (map (\<lambda>x. fst (loadRecursive latin1_tables ?e x ''FOO'')) ?xs, None)"
    by (rule conjunct1)
  with h m show ?thesis by (simp only:) 
qed

section \<open>Absent environment variables\<close>

text \<open>
  Claim C3. A string, integer or boolean leaf whose key is absent from the environment is
  left at its current value, without an error. When none of the keys that the traversal
  of the target derives is present, \<^verbatim>\<open>LoadFromEnvironment\<close> succeeds and the whole
  target is unchanged; with an empty environment this holds for every target.
\<close>

theorem absent_keys_preserve_target:
  "(LookupEnv environ key = None \<longrightarrow>
      loadRecursive tab environ (StringV s) key = (StringV s, None)
      \<and> loadRecursive tab environ (IntV k n) key = (IntV k n, None)
      \<and> loadRecursive tab environ (BoolV b) key = (BoolV b, None))
   \<and> (list_all (\<lambda>k. LookupEnv environ k = None) (derivedKeys tab pt prefix) \<longrightarrow>
        LoadFromEnvironment tab environ pt prefix = (pt, None))
   \<and> LoadFromEnvironment tab Map.empty pt prefix = (pt, None)"
proof -
  have leaf: "LookupEnv environ key = None \<longrightarrow>
      loadRecursive tab environ (StringV s) key = (StringV s, None)
      \<and> loadRecursive tab environ (IntV k n) key = (IntV k n, None)
      \<and> loadRecursive tab environ (BoolV b) key = (BoolV b, None)"
    by (simp add: lookup_and_assign_def)
  have whole: "list_all (\<lambda>k. LookupEnv e k = None) (derivedKeys tab pt prefix) \<longrightarrow>
        LoadFromEnvironment tab e pt prefix = (pt, None)" for e
    using absent_keys_unchanged(1) [of e tab pt prefix]
    by (simp add: LoadFromEnvironment_loadRecursive)
  have "list_all (\<lambda>k. LookupEnv Map.empty k = None) (derivedKeys tab pt prefix)"
    by (simp add: LookupEnv_def list_all_iff)
  with whole [of Map.empty]
  have empty: "LoadFromEnvironment tab Map.empty pt prefix = (pt, None)" by blast
  from leaf whole [of environ] empty show ?thesis by blast
qed

theorem absent_keys_preserve_target_witness:
  "LookupEnv [''OTHER'' \<mapsto> ''1''] ''FOO'' = None
   \<and> loadRecursive latin1_tables [''OTHER'' \<mapsto> ''1''] (StringV ''some default value'') ''FOO''
       = (StringV ''some default value'', None)
   \<and> list_all (\<lambda>k. LookupEnv [''OTHER'' \<mapsto> ''1''] k = None)
       (derivedKeys latin1_tables (StructV [StructField ''Foo'' True
                       (StructV [StructField ''Bar'' True (StringV ''qux'')])]) '''')
   \<and> LoadFromEnvironment latin1_tables [''OTHER'' \<mapsto> ''1'']
       (StructV [StructField ''Foo'' True
          (StructV [StructField ''Bar'' True (StringV ''qux'')])]) ''''
     = (StructV [StructField ''Foo'' True
          (StructV [StructField ''Bar'' True (StringV ''qux'')])], None)"
proof -
  let ?e = "[''OTHER'' \<mapsto> ''1'']"
  let ?pt = "StructV [StructField ''Foo'' True
               (StructV [StructField ''Bar'' True (StringV ''qux'')])]"
  have h1: "LookupEnv ?e ''FOO'' = None" by code_simp
  have h2: "list_all (\<lambda>k. LookupEnv ?e k = None) (derivedKeys latin1_tables ?pt '''')" by code_simp
  from absent_keys_preserve_target
    [where environ = ?e and key = "''FOO''" and tab = latin1_tables
       and s = "''some default value''" and k = KInt and n = 0 and b = True
       and pt = ?pt and prefix = "''''"]
    h1 h2
  show ?thesis by blast
qed

section \<open>Coercion of integer and boolean leaves\<close>

text \<open>
  Claim C4, as the code has it. For an integer leaf of any signed width whose key is present,
  the value is read by \<^verbatim>\<open>strconv.Atoi\<close>, which succeeds exactly on the base-10 signed
  integers that fit the 64-bit \<^verbatim>\<open>int\<close>. On failure the binder fails with the coercion
  error that names the key and the kind \<open>int\<close> and wraps the error of \<^verbatim>\<open>Atoi\<close>, and the
  leaf keeps its value. On success the integer is stored by \<^verbatim>\<open>SetInt\<close>, which truncates
  it to the width of the leaf: the leaf holds the parsed integer itself whenever that fits
  the width, always so for \<^verbatim>\<open>int\<close> and \<^verbatim>\<open>int64\<close>. For a boolean leaf the value is
  read by \<^verbatim>\<open>strconv.ParseBool\<close> and assigned; on failure the binder fails with the
  coercion error that names the key and the kind \<open>bool\<close>.
\<close>

theorem int_and_bool_leaf_coercion:
  assumes "LookupEnv environ key = Some environmentValue"
  shows "loadRecursive tab environ (IntV k old) key =
      (case Atoi environmentValue of
         Inl cause \<Rightarrow> (IntV k old, Some (CoercionError key ''int'' cause))
       | Inr n \<Rightarrow> (IntV k (truncate_int (bits k) n), None))
    \<and> (Atoi environmentValue = Inr n) =
        (base10 environmentValue = Some n
          \<and> - 9223372036854775808 \<le> n \<and> n < 9223372036854775808)
    \<and> (Atoi environmentValue = Inr n \<and> - (2 ^ (bits k - 1)) \<le> n \<and> n < 2 ^ (bits k - 1) \<longrightarrow>
          loadRecursive tab environ (IntV k old) key = (IntV k n, None))
    \<and> (Atoi environmentValue = Inr n \<and> (k = KInt \<or> k = KInt64) \<longrightarrow>
          loadRecursive tab environ (IntV k old) key = (IntV k n, None))
    \<and> loadRecursive tab environ (BoolV b) key =
      (case ParseBool environmentValue of
         Inl cause \<Rightarrow> (BoolV b, Some (CoercionError key ''bool'' cause))
       | Inr b' \<Rightarrow> (BoolV b', None))
    \<and> ParseBool ''true'' = Inr True \<and> ParseBool ''false'' = Inr False
    \<and> ParseBool ''1'' = Inr True \<and> ParseBool ''0'' = Inr False"
proof -
  have int_leaf: "loadRecursive tab environ (IntV k old) key =
      (case Atoi environmentValue of
         Inl cause \<Rightarrow> (IntV k old, Some (CoercionError key ''int'' cause))
       | Inr n \<Rightarrow> (IntV k (truncate_int (bits k) n), None))"
    using assms by (simp add: lookup_and_assign_def SetInt_def split: sum.split)
  have pos: "0 < bits k" by (cases k) (simp_all add: intSize_def)
  have fits: "Atoi environmentValue = Inr n \<and> - (2 ^ (bits k - 1)) \<le> n \<and> n < 2 ^ (bits k - 1) \<longrightarrow>
          loadRecursive tab environ (IntV k old) key = (IntV k n, None)"
  proof (intro impI, elim conjE)
    assume a: "Atoi environmentValue = Inr n"
      and r: "- (2 ^ (bits k - 1)) \<le> n" "n < 2 ^ (bits k - 1)"
    from pos r have "truncate_int (bits k) n = n" by (rule truncate_int_fits)
    with a show "loadRecursive tab environ (IntV k old) key = (IntV k n, None)"
      by (simp only: int_leaf sum.case)
  qed
  have wide: "Atoi environmentValue = Inr n \<and> (k = KInt \<or> k = KInt64) \<longrightarrow>
          loadRecursive tab environ (IntV k old) key = (IntV k n, None)"
  proof (intro impI, elim conjE)
    assume a: "Atoi environmentValue = Inr n" and k: "k = KInt \<or> k = KInt64"
    from a have r: "- 9223372036854775808 \<le> n" "n < 9223372036854775808"
      by (simp_all add: Atoi_Inr)
    from k have "bits k = 64" by (auto simp add: intSize_def)
    with r have "truncate_int (bits k) n = n"
      by (intro truncate_int_fits) simp_all
    with a show "loadRecursive tab environ (IntV k old) key = (IntV k n, None)"
      by (simp only: int_leaf sum.case)
  qed
  have bool_leaf: "loadRecursive tab environ (BoolV b) key =
      (case ParseBool environmentValue of
         Inl cause \<Rightarrow> (BoolV b, Some (CoercionError key ''bool'' cause))
       | Inr b' \<Rightarrow> (BoolV b', None))"
    using assms by (simp add: lookup_and_assign_def split: sum.split)
  have forms: "ParseBool ''true'' = Inr True" "ParseBool ''false'' = Inr False"
    "ParseBool ''1'' = Inr True" "ParseBool ''0'' = Inr False"
    by code_simp+
  from int_leaf Atoi_Inr [of environmentValue n] fits wide bool_leaf forms
  show ?thesis by (intro conjI)
qed

theorem int_and_bool_leaf_coercion_witness:
  "LookupEnv [''FOO'' \<mapsto> ''300''] ''FOO'' = Some ''300''
   \<and> Atoi ''300'' = Inr 300
   \<and> loadRecursive latin1_tables [''FOO'' \<mapsto> ''300''] (IntV KInt16 0) ''FOO'' = (IntV KInt16 300, None)
   \<and> loadRecursive latin1_tables [''FOO'' \<mapsto> ''300''] (IntV KInt 0) ''FOO'' = (IntV KInt 300, None)
   \<and> loadRecursive latin1_tables [''FOO'' \<mapsto> ''300''] (BoolV False) ''FOO''
       = (BoolV False,
          Some (CoercionError ''FOO'' ''bool'' (NumError ''ParseBool'' ''300'' ErrSyntax)))"
proof -
  let ?e = "[''FOO'' \<mapsto> ''300'']"
  have h: "LookupEnv ?e ''FOO'' = Some ''300''" by code_simp
  have a: "Atoi ''300'' = Inr 300" by code_simp
  have r16: "- (2 ^ (bits KInt16 - 1)) \<le> (300::int) \<and> (300::int) < 2 ^ (bits KInt16 - 1)"
    by simp
  have pb: "ParseBool ''300'' = Inl (NumError ''ParseBool'' ''300'' ErrSyntax)" by code_simp
  note t16 = int_and_bool_leaf_coercion
    [where tab = latin1_tables and environ = ?e and key = "''FOO''"
       and environmentValue = "''300''" and k = KInt16 and old = 0 and n = 300
       and b = False, OF h]
  note t64 = int_and_bool_leaf_coercion
    [where tab = latin1_tables and environ = ?e and key = "''FOO''"
       and environmentValue = "''300''" and k = KInt and old = 0 and n = 300
       and b = False, OF h]
  from t16 a r16
  have c16: "loadRecursive latin1_tables ?e (IntV KInt16 0) ''FOO'' = (IntV KInt16 300, None)" by blast
  from t64 a
  have c64: "loadRecursive latin1_tables ?e (IntV KInt 0) ''FOO'' = (IntV KInt 300, None)" by blast
  from t16 have "loadRecursive latin1_tables ?e (BoolV False) ''FOO'' =
      (case ParseBool ''300'' of
         Inl cause \<Rightarrow> (BoolV False, Some (CoercionError ''FOO'' ''bool'' cause))
       | Inr b' \<Rightarrow> (BoolV b', None))" by blast
  then have cb: "loadRecursive latin1_tables ?e (BoolV False) ''FOO''
       = (BoolV False,
          Some (CoercionError ''FOO'' ''bool'' (NumError ''ParseBool'' ''300'' ErrSyntax)))"
    by (simp only: pb sum.case)
  from h a c16 c64 cb show ?thesis by (intro conjI)
qed

text \<open>
  The claim as stated fails at an \<^verbatim>\<open>int8\<close> field with \<open>FOO=300\<close>: \<^verbatim>\<open>Atoi\<close> yields
  \<open>300\<close>, the call succeeds, and the field holds \<open>44\<close>, not the parsed integer.
\<close>

theorem narrow_int_leaf_counterexample:
  "Atoi ''300'' = Inr 300
   \<and> LoadFromEnvironment latin1_tables [''FOO'' \<mapsto> ''300'']
        (StructV [StructField ''Foo'' True (IntV KInt8 0)]) ''''
      = (StructV [StructField ''Foo'' True (IntV KInt8 44)], None)
   \<and> fst (LoadFromEnvironment latin1_tables [''FOO'' \<mapsto> ''300'']
        (StructV [StructField ''Foo'' True (IntV KInt8 0)]) '''')
      \<noteq> StructV [StructField ''Foo'' True (IntV KInt8 300)]"
proof -
  have a: "Atoi ''300'' = Inr 300" by code_simp
  have r: "LoadFromEnvironment latin1_tables [''FOO'' \<mapsto> ''300'']
        (StructV [StructField ''Foo'' True (IntV KInt8 0)]) ''''
      = (StructV [StructField ''Foo'' True (IntV KInt8 44)], None)" by code_simp
  from a r show ?thesis by simp
qed

section \<open>Unsupported kinds\<close>

text \<open>
  Claim C5, as the code has it. A leaf of a kind without a branch (a channel, a function, a
  float, an unsigned integer, a map, a pointer, ...) makes the binder fail with the
  unsupported-type error, naming its key and its kind, exactly when the environment holds
  a value for that key. When the key is absent the leaf is passed over, unchanged and
  without an error: the kind is only examined inside the branch of a successful lookup.
\<close>

theorem unsupported_kind_checked_only_when_present:
  "loadRecursive tab environ (OtherV k) key =
     (case LookupEnv environ key of
        None \<Rightarrow> (OtherV k, None)
      | Some environmentValue \<Rightarrow>
          (OtherV k, Some (UnsupportedTypeError key (kind_of_other k))))"
  by (simp add: lookup_and_assign_def split: option.split)

text \<open>
  The claim as stated fails: a struct with a channel field \<open>Foo\<close> and no \<open>FOO\<close> in the
  environment is bound without an error.
\<close>

theorem unsupported_kind_absent_key_counterexample:
  "LoadFromEnvironment latin1_tables Map.empty (StructV [StructField ''Foo'' True (OtherV KChan)]) ''''
     = (StructV [StructField ''Foo'' True (OtherV KChan)], None)
   \<and> snd (LoadFromEnvironment latin1_tables Map.empty
            (StructV [StructField ''Foo'' True (OtherV KChan)]) '''')
       \<noteq> Some (UnsupportedTypeError ''FOO'' Chan)"
proof -
  have "LoadFromEnvironment latin1_tables Map.empty (StructV [StructField ''Foo'' True (OtherV KChan)]) ''''
     = (StructV [StructField ''Foo'' True (OtherV KChan)], None)"
    by code_simp
  then show ?thesis by simp
qed

section \<open>The first error\<close>

text \<open>
  Claim C6. At a struct node, when the fields before a settable field are passed without
  an error and the traversal of that field fails, the node returns this very error at
  once: the fields before it hold their new values, the failing field is as its own
  traversal left it, and the fields after it are untouched. The same holds for the
  elements of a slice or an array. \<^verbatim>\<open>LoadFromEnvironment\<close> hands the result of the
  root node to the caller as it is, so the error travels up unchanged and nothing is
  rolled back.
\<close>

theorem first_error_aborts_traversal:
  "(list_all (\<lambda>f. fieldError tab environ key f = None) pre
      \<and> loadRecursive tab environ v (camelToUpperSnakeCase tab n key) = (v', Some err) \<longrightarrow>
        loadRecursive tab environ (StructV (pre @ StructField n True v # post)) key =
          (StructV (map (boundField tab environ key) pre @ StructField n True v' # post), Some err))
   \<and> (list_all (\<lambda>x. snd (loadRecursive tab environ x key) = None) xpre
      \<and> loadRecursive tab environ x key = (x', Some err) \<longrightarrow>
        loadRecursive tab environ (SliceV (xpre @ x # xpost)) key =
          (SliceV (map (\<lambda>x. fst (loadRecursive tab environ x key)) xpre @ x' # xpost), Some err)
        \<and> loadRecursive tab environ (ArrayV (xpre @ x # xpost)) key =
          (ArrayV (map (\<lambda>x. fst (loadRecursive tab environ x key)) xpre @ x' # xpost), Some err))
   \<and> LoadFromEnvironment tab environ pt prefix = loadRecursive tab environ pt prefix"
proof -
  have fields: "list_all (\<lambda>f. fieldError tab environ key f = None) pre
      \<and> loadRecursive tab environ v (camelToUpperSnakeCase tab n key) = (v', Some err) \<longrightarrow>
        loadRecursive tab environ (StructV (pre @ StructField n True v # post)) key =
          (StructV (map (boundField tab environ key) pre @ StructField n True v' # post), Some err)"
    by (simp add: loadFields_first_error)
  have elems: "list_all (\<lambda>x. snd (loadRecursive tab environ x key) = None) xpre
      \<and> loadRecursive tab environ x key = (x', Some err) \<longrightarrow>
        loadRecursive tab environ (SliceV (xpre @ x # xpost)) key =
          (SliceV (map (\<lambda>x. fst (loadRecursive tab environ x key)) xpre @ x' # xpost), Some err)
        \<and> loadRecursive tab environ (ArrayV (xpre @ x # xpost)) key =
          (ArrayV (map (\<lambda>x. fst (loadRecursive tab environ x key)) xpre @ x' # xpost), Some err)"
    by (simp add: loadElems_first_error)
  from fields elems LoadFromEnvironment_loadRecursive [of tab environ pt prefix]
  show ?thesis by blast
qed

text \<open>
  The theorem at a struct with the fields \<open>A string\<close>, \<open>B int\<close>, \<open>C string\<close> and the
  environment \<open>A=x\<close>, \<open>B=abc\<close>, \<open>C=y\<close>: \<open>A\<close> is set, \<open>B\<close> fails, \<open>C\<close> keeps its value. And
  at a slice of structs whose field \<open>Xs\<close> is a slice of structs with an integer field
  \<open>N\<close>, under the key \<open>FOO\<close> with \<open>FOO_XS_N=abc\<close>: the first element has an empty \<open>Xs\<close>
  and passes, the second fails, the third is not visited.
\<close>

theorem first_error_aborts_traversal_witness:
  "list_all (\<lambda>f. fieldError latin1_tables [''A'' \<mapsto> ''x'', ''B'' \<mapsto> ''abc'', ''C'' \<mapsto> ''y''] '''' f = None)
      [StructField ''A'' True (StringV '''')]
   \<and> loadRecursive latin1_tables [''A'' \<mapsto> ''x'', ''B'' \<mapsto> ''abc'', ''C'' \<mapsto> ''y'']
        (IntV KInt 7) (camelToUpperSnakeCase latin1_tables ''B'' '''')
      = (IntV KInt 7, Some (CoercionError ''B'' ''int'' (NumError ''Atoi'' ''abc'' ErrSyntax)))
   \<and> loadRecursive latin1_tables [''A'' \<mapsto> ''x'', ''B'' \<mapsto> ''abc'', ''C'' \<mapsto> ''y'']
        (StructV ([StructField ''A'' True (StringV '''')]
                  @ StructField ''B'' True (IntV KInt 7)
                  # [StructField ''C'' True (StringV ''old'')])) ''''
      = (StructV [StructField ''A'' True (StringV ''x''),
                  StructField ''B'' True (IntV KInt 7),
                  StructField ''C'' True (StringV ''old'')],
         Some (CoercionError ''B'' ''int'' (NumError ''Atoi'' ''abc'' ErrSyntax)))
   \<and> list_all (\<lambda>x. snd (loadRecursive latin1_tables [''FOO_XS_N'' \<mapsto> ''abc''] x ''FOO'') = None)
      [StructV [StructField ''Xs'' True (SliceV [])]]
   \<and> loadRecursive latin1_tables [''FOO_XS_N'' \<mapsto> ''abc'']
        (SliceV ([StructV [StructField ''Xs'' True (SliceV [])]]
                 @ StructV [StructField ''Xs'' True
                     (SliceV [StructV [StructField ''N'' True (IntV KInt 1)]])]
                 # [StructV [StructField ''Xs'' True
                     (SliceV [StructV [StructField ''N'' True (IntV KInt 2)]])]])) ''FOO''
      = (SliceV [StructV [StructField ''Xs'' True (SliceV [])],
                 StructV [StructField ''Xs'' True
                     (SliceV [StructV [StructField ''N'' True (IntV KInt 1)]])],
                 StructV [StructField ''Xs'' True
                     (SliceV [StructV [StructField ''N'' True (IntV KInt 2)]])]],
         Some (CoercionError ''FOO_XS_N'' ''int'' (NumError ''Atoi'' ''abc'' ErrSyntax)))"
proof -
  let ?e = "[''A'' \<mapsto> ''x'', ''B'' \<mapsto> ''abc'', ''C'' \<mapsto> ''y'']"
  let ?pre = "[StructField ''A'' True (StringV '''')]"
  let ?err = "CoercionError ''B'' ''int'' (NumError ''Atoi'' ''abc'' ErrSyntax)"
  let ?d = "[''FOO_XS_N'' \<mapsto> ''abc'']"
  let ?x0 = "StructV [StructField ''Xs'' True (SliceV [])]"
  let ?x1 = "StructV [StructField ''Xs'' True
               (SliceV [StructV [StructField ''N'' True (IntV KInt 1)]])]"
  let ?x2 = "StructV [StructField ''Xs'' True
               (SliceV [StructV [StructField ''N'' True (IntV KInt 2)]])]"
  let ?err2 = "CoercionError ''FOO_XS_N'' ''int'' (NumError ''Atoi'' ''abc'' ErrSyntax)"
  have h1: "list_all (\<lambda>f. fieldError latin1_tables ?e '''' f = None) ?pre" by code_simp
  have h2: "loadRecursive latin1_tables ?e (IntV KInt 7) (camelToUpperSnakeCase latin1_tables ''B'' '''')
      = (IntV KInt 7, Some ?err)" by code_simp
  have m1: "map (boundField latin1_tables ?e '''') ?pre = [StructField ''A'' True (StringV ''x'')]"
    by code_simp
  have h3: "list_all (\<lambda>x. snd (loadRecursive latin1_tables ?d x ''FOO'') = None) [?x0]" by code_simp
  have h4: "loadRecursive latin1_tables ?d ?x1 ''FOO'' = (?x1, Some ?err2)" by code_simp
  have m2: "map (\<lambda>x. fst (loadRecursive latin1_tables ?d x ''FOO'')) [?x0] = [?x0]" by code_simp
  from first_error_aborts_traversal
    [where tab = latin1_tables and environ = ?e and key = "''''" and pre = ?pre
       and v = "IntV KInt 7" and n = "''B''" and v' = "IntV KInt 7" and err = ?err
       and post = "[StructField ''C'' True (StringV ''old'')]"
       and xpre = "[]" and x = "IntV KInt 0" and x' = "IntV KInt 0" and xpost = "[]"
       and pt = "IntV KInt 0" and prefix = "[]"] h1 h2
  have c1: "loadRecursive latin1_tables ?e
        (StructV (?pre @ StructField ''B'' True (IntV KInt 7)
                  # [StructField ''C'' True (StringV ''old'')])) ''''
      = (StructV (map (boundField latin1_tables ?e '''') ?pre @ StructField ''B'' True (IntV KInt 7)
                  # [StructField ''C'' True (StringV ''old'')]), Some ?err)"
    by blast
  from first_error_aborts_traversal
    [where tab = latin1_tables and environ = ?d and key = "''FOO''" and xpre = "[?x0]"
       and x = ?x1 and x' = ?x1 and err = ?err2 and xpost = "[?x2]"
       and pre = "[]" and v = "IntV KInt 0" and n = "[]" and v' = "IntV KInt 0"
       and post = "[]" and pt = "IntV KInt 0" and prefix = "[]"] h3 h4
  have c2: "loadRecursive latin1_tables ?d (SliceV ([?x0] @ ?x1 # [?x2])) ''FOO''
      = (SliceV (map (\<lambda>x. fst (loadRecursive latin1_tables ?d x ''FOO'')) [?x0] @ ?x1 # [?x2]), Some ?err2)"
    by blast
  have c1': "loadRecursive latin1_tables ?e
        (StructV (?pre @ StructField ''B'' True (IntV KInt 7)
                  # [StructField ''C'' True (StringV ''old'')])) ''''
      = (StructV [StructField ''A'' True (StringV ''x''), StructField ''B'' True (IntV KInt 7),
                  StructField ''C'' True (StringV ''old'')], Some ?err)"
    using c1 by (simp only: m1 append.simps)
  have c2': "loadRecursive latin1_tables ?d (SliceV ([?x0] @ ?x1 # [?x2])) ''FOO''
      = (SliceV [?x0, ?x1, ?x2], Some ?err2)"
    using c2 by (simp only: m2 append.simps)
  from h1 h2 c1' h3 c2' show ?thesis by (intro conjI)
qed

section \<open>Composite nodes and the lookup\<close>

text \<open>
  Claim C7, evaluated. The lookup of lines 70-89 is made for every node, so a struct without
  fields, or a slice of length 0, whose key is present in the environment does not
  succeed: the binder fails with the unsupported-type error of kind \<open>struct\<close> or
  \<open>slice\<close>.
\<close>

theorem empty_composite_with_key_present:
  "LoadFromEnvironment tab [''FOO'' \<mapsto> ''x''] (StructV [StructField ''Foo'' True (StructV [])]) ''''
     = (StructV [StructField ''Foo'' True (StructV [])],
        Some (UnsupportedTypeError ''FOO'' Struct))
   \<and> LoadFromEnvironment tab [''FOO'' \<mapsto> ''x''] (StructV [StructField ''Foo'' True (SliceV [])]) ''''
     = (StructV [StructField ''Foo'' True (SliceV [])],
        Some (UnsupportedTypeError ''FOO'' Slice))"
proof -
  have s: "LoadFromEnvironment tab [''FOO'' \<mapsto> ''x'']
      (StructV [StructField ''Foo'' True (StructV [])]) ''''
     = (StructV [StructField ''Foo'' True (StructV [])],
        Some (UnsupportedTypeError ''FOO'' Struct))"
    by code_simp
  have l: "LoadFromEnvironment tab [''FOO'' \<mapsto> ''x'']
      (StructV [StructField ''Foo'' True (SliceV [])]) ''''
     = (StructV [StructField ''Foo'' True (SliceV [])],
        Some (UnsupportedTypeError ''FOO'' Slice))"
    by code_simp
  from s l show ?thesis by (rule conjI)
qed

text \<open>
  Claim C9, as the code has it. A struct, array or slice node whose own key is present in
  the environment always makes the binder fail. The binder first recurses into the fields
  or elements. When that recursion meets an error, the node returns that error, with the
  fields or elements as they are at that moment. When it meets none, the fields or
  elements hold their new values and the error is the unsupported-type error naming the
  key of the node and the kind \<open>struct\<close>, \<open>array\<close> or \<open>slice\<close>.
\<close>

theorem composite_node_with_key_present:
  assumes "LookupEnv environ key = Some environmentValue"
  shows "snd (loadRecursive tab environ (StructV fs) key) \<noteq> None
    \<and> snd (loadRecursive tab environ (ArrayV xs) key) \<noteq> None
    \<and> snd (loadRecursive tab environ (SliceV xs) key) \<noteq> None
    \<and> (loadFields tab environ key fs = (fs', Some err) \<longrightarrow>
         loadRecursive tab environ (StructV fs) key = (StructV fs', Some err))
    \<and> (loadElems tab environ key xs = (xs', Some err) \<longrightarrow>
         loadRecursive tab environ (ArrayV xs) key = (ArrayV xs', Some err)
         \<and> loadRecursive tab environ (SliceV xs) key = (SliceV xs', Some err))
    \<and> (list_all (\<lambda>f. fieldError tab environ key f = None) fs \<longrightarrow>
         loadRecursive tab environ (StructV fs) key =
           (StructV (map (boundField tab environ key) fs), Some (UnsupportedTypeError key Struct)))
    \<and> (list_all (\<lambda>x. snd (loadRecursive tab environ x key) = None) xs \<longrightarrow>
         loadRecursive tab environ (ArrayV xs) key =
           (ArrayV (map (\<lambda>x. fst (loadRecursive tab environ x key)) xs),
            Some (UnsupportedTypeError key Array))
         \<and> loadRecursive tab environ (SliceV xs) key =
           (SliceV (map (\<lambda>x. fst (loadRecursive tab environ x key)) xs),
            Some (UnsupportedTypeError key Slice)))"
proof -
  have a: "snd (loadRecursive tab environ (StructV fs) key) \<noteq> None"
    using assms
    by (cases "loadFields tab environ key fs")
       (auto simp add: lookup_and_assign_def split: option.split)
  have b: "snd (loadRecursive tab environ (ArrayV xs) key) \<noteq> None"
    using assms
    by (cases "loadElems tab environ key xs")
       (auto simp add: lookup_and_assign_def split: option.split)
  have c: "snd (loadRecursive tab environ (SliceV xs) key) \<noteq> None"
    using assms
    by (cases "loadElems tab environ key xs")
       (auto simp add: lookup_and_assign_def split: option.split)
  have f1: "loadFields tab environ key fs = (fs', Some err) \<longrightarrow>
         loadRecursive tab environ (StructV fs) key = (StructV fs', Some err)"
    by simp
  have f2: "loadElems tab environ key xs = (xs', Some err) \<longrightarrow>
         loadRecursive tab environ (ArrayV xs) key = (ArrayV xs', Some err)
         \<and> loadRecursive tab environ (SliceV xs) key = (SliceV xs', Some err)"
    by simp
  have d: "list_all (\<lambda>f. fieldError tab environ key f = None) fs \<longrightarrow>
         loadRecursive tab environ (StructV fs) key =
           (StructV (map (boundField tab environ key) fs), Some (UnsupportedTypeError key Struct))"
    using assms by (simp add: loadFields_all_ok lookup_and_assign_def)
  have e: "list_all (\<lambda>x. snd (loadRecursive tab environ x key) = None) xs \<longrightarrow>
         loadRecursive tab environ (ArrayV xs) key =
           (ArrayV (map (\<lambda>x. fst (loadRecursive tab environ x key)) xs),
            Some (UnsupportedTypeError key Array))
         \<and> loadRecursive tab environ (SliceV xs) key =
           (SliceV (map (\<lambda>x. fst (loadRecursive tab environ x key)) xs),
            Some (UnsupportedTypeError key Slice))"
    using assms by (simp add: loadElems_all_ok lookup_and_assign_def)
  from a b c f1 f2 d e show ?thesis by (intro conjI)
qed

text \<open>
  The theorem under the key \<open>FOO\<close> with \<open>FOO=x\<close> and \<open>FOO_BAR=baz\<close>: a struct with a
  string field \<open>Bar\<close> has the field set and fails as an unsupported struct; a slice of two
  strings has both set and fails as an unsupported slice; a struct with an integer field
  \<open>Bar\<close> returns the coercion error of that field.
\<close>

theorem composite_node_with_key_present_witness:
  "LookupEnv [''FOO'' \<mapsto> ''x'', ''FOO_BAR'' \<mapsto> ''baz''] ''FOO'' = Some ''x''
   \<and> list_all (\<lambda>f. fieldError latin1_tables [''FOO'' \<mapsto> ''x'', ''FOO_BAR'' \<mapsto> ''baz''] ''FOO'' f
                  = None)
       [StructField ''Bar'' True (StringV '''')]
   \<and> loadRecursive latin1_tables [''FOO'' \<mapsto> ''x'', ''FOO_BAR'' \<mapsto> ''baz'']
       (StructV [StructField ''Bar'' True (StringV '''')]) ''FOO''
     = (StructV [StructField ''Bar'' True (StringV ''baz'')],
        Some (UnsupportedTypeError ''FOO'' Struct))
   \<and> list_all (\<lambda>x. snd (loadRecursive latin1_tables
                           [''FOO'' \<mapsto> ''x'', ''FOO_BAR'' \<mapsto> ''baz''] x ''FOO'') = None)
       [StringV ''a'', StringV ''b'']
   \<and> loadRecursive latin1_tables [''FOO'' \<mapsto> ''x'', ''FOO_BAR'' \<mapsto> ''baz'']
       (SliceV [StringV ''a'', StringV ''b'']) ''FOO''
     = (SliceV [StringV ''x'', StringV ''x''], Some (UnsupportedTypeError ''FOO'' Slice))
   \<and> loadFields latin1_tables [''FOO'' \<mapsto> ''x'', ''FOO_BAR'' \<mapsto> ''baz''] ''FOO''
       [StructField ''Bar'' True (IntV KInt 0)]
     = ([StructField ''Bar'' True (IntV KInt 0)],
        Some (CoercionError ''FOO_BAR'' ''int'' (NumError ''Atoi'' ''baz'' ErrSyntax)))
   \<and> loadRecursive latin1_tables [''FOO'' \<mapsto> ''x'', ''FOO_BAR'' \<mapsto> ''baz'']
       (StructV [StructField ''Bar'' True (IntV KInt 0)]) ''FOO''
     = (StructV [StructField ''Bar'' True (IntV KInt 0)],
        Some (CoercionError ''FOO_BAR'' ''int'' (NumError ''Atoi'' ''baz'' ErrSyntax)))"
proof -
  let ?e = "[''FOO'' \<mapsto> ''x'', ''FOO_BAR'' \<mapsto> ''baz'']"
  let ?fs = "[StructField ''Bar'' True (StringV '''')]"
  let ?gs = "[StructField ''Bar'' True (IntV KInt 0)]"
  let ?xs = "[StringV ''a'', StringV ''b'']"
  let ?err = "CoercionError ''FOO_BAR'' ''int'' (NumError ''Atoi'' ''baz'' ErrSyntax)"
  have h: "LookupEnv ?e ''FOO'' = Some ''x''" by code_simp
  have hf: "list_all (\<lambda>f. fieldError latin1_tables ?e ''FOO'' f = None) ?fs" by code_simp
  have hx: "list_all (\<lambda>x. snd (loadRecursive latin1_tables ?e x ''FOO'') = None) ?xs"
    by code_simp
  have hg: "loadFields latin1_tables ?e ''FOO'' ?gs = (?gs, Some ?err)" by code_simp
  have mf: "map (boundField latin1_tables ?e ''FOO'') ?fs
      = [StructField ''Bar'' True (StringV ''baz'')]"
    by code_simp
  have mx: "map (\<lambda>x. fst (loadRecursive latin1_tables ?e x ''FOO'')) ?xs
      = [StringV ''x'', StringV ''x'']"
    by code_simp
  note t = composite_node_with_key_present
    [where tab = latin1_tables and environ = ?e and key = "''FOO''"
       and environmentValue = "''x''" and fs = ?fs and xs = ?xs
       and fs' = ?fs and xs' = ?xs and err = ?err, OF h]
  note u = composite_node_with_key_present
    [where tab = latin1_tables and environ = ?e and key = "''FOO''"
       and environmentValue = "''x''" and fs = ?gs and xs = ?xs
       and fs' = ?gs and xs' = ?xs and err = ?err, OF h]
  from t hf have c1: "loadRecursive latin1_tables ?e (StructV ?fs) ''FOO'' =
      (StructV (map (boundField latin1_tables ?e ''FOO'') ?fs),
       Some (UnsupportedTypeError ''FOO'' Struct))"
    by blast
  from t hx have c2: "loadRecursive latin1_tables ?e (SliceV ?xs) ''FOO'' =
      (SliceV (map (\<lambda>x. fst (loadRecursive latin1_tables ?e x ''FOO'')) ?xs),
       Some (UnsupportedTypeError ''FOO'' Slice))"
    by blast
  from u hg have c3: "loadRecursive latin1_tables ?e (StructV ?gs) ''FOO'' = (StructV ?gs, Some ?err)"
    by blast
  from h hf c1 hx c2 hg c3 show ?thesis by (simp only: mf mx)
qed

text \<open>
  The claim as stated fails when the recursion meets an error first. With \<open>FOO=x\<close> and
  \<open>FOO_BAR=abc\<close>, a struct node with an integer field \<open>Bar\<close> under the key \<open>FOO\<close> returns
  the coercion error of \<open>FOO_BAR\<close>, not the unsupported-type error. With \<open>FOO=x\<close> and
  \<open>FOO_BAR=baz\<close>, a slice of two structs under the key \<open>FOO\<close> fails in its first element,
  with the kind \<open>struct\<close> and not \<open>slice\<close>, and the second element is not visited.
\<close>

theorem composite_node_child_error_counterexample:
  "LookupEnv [''FOO'' \<mapsto> ''x'', ''FOO_BAR'' \<mapsto> ''abc''] ''FOO'' = Some ''x''
   \<and> loadRecursive latin1_tables [''FOO'' \<mapsto> ''x'', ''FOO_BAR'' \<mapsto> ''abc'']
       (StructV [StructField ''Bar'' True (IntV KInt 0)]) ''FOO''
     = (StructV [StructField ''Bar'' True (IntV KInt 0)],
        Some (CoercionError ''FOO_BAR'' ''int'' (NumError ''Atoi'' ''abc'' ErrSyntax)))
   \<and> snd (loadRecursive latin1_tables [''FOO'' \<mapsto> ''x'', ''FOO_BAR'' \<mapsto> ''abc'']
       (StructV [StructField ''Bar'' True (IntV KInt 0)]) ''FOO'')
     \<noteq> Some (UnsupportedTypeError ''FOO'' Struct)
   \<and> loadRecursive latin1_tables [''FOO'' \<mapsto> ''x'', ''FOO_BAR'' \<mapsto> ''baz'']
       (SliceV [StructV [StructField ''Bar'' True (StringV ''a'')],
                StructV [StructField ''Bar'' True (StringV ''b'')]]) ''FOO''
     = (SliceV [StructV [StructField ''Bar'' True (StringV ''baz'')],
                StructV [StructField ''Bar'' True (StringV ''b'')]],
        Some (UnsupportedTypeError ''FOO'' Struct))
   \<and> snd (loadRecursive latin1_tables [''FOO'' \<mapsto> ''x'', ''FOO_BAR'' \<mapsto> ''baz'']
       (SliceV [StructV [StructField ''Bar'' True (StringV ''a'')],
                StructV [StructField ''Bar'' True (StringV ''b'')]]) ''FOO'')
     \<noteq> Some (UnsupportedTypeError ''FOO'' Slice)"
proof -
  have h: "LookupEnv [''FOO'' \<mapsto> ''x'', ''FOO_BAR'' \<mapsto> ''abc''] ''FOO'' = Some ''x''"
    by code_simp
  have s: "loadRecursive latin1_tables [''FOO'' \<mapsto> ''x'', ''FOO_BAR'' \<mapsto> ''abc'']
       (StructV [StructField ''Bar'' True (IntV KInt 0)]) ''FOO''
     = (StructV [StructField ''Bar'' True (IntV KInt 0)],
        Some (CoercionError ''FOO_BAR'' ''int'' (NumError ''Atoi'' ''abc'' ErrSyntax)))"
    by code_simp
  have l: "loadRecursive latin1_tables [''FOO'' \<mapsto> ''x'', ''FOO_BAR'' \<mapsto> ''baz'']
       (SliceV [StructV [StructField ''Bar'' True (StringV ''a'')],
                StructV [StructField ''Bar'' True (StringV ''b'')]]) ''FOO''
     = (SliceV [StructV [StructField ''Bar'' True (StringV ''baz'')],
                StructV [StructField ''Bar'' True (StringV ''b'')]],
        Some (UnsupportedTypeError ''FOO'' Struct))"
    by code_simp
  from h s l show ?thesis by simp
qed

section \<open>The two entry points\<close>

text \<open>
  Claim C8. \<^verbatim>\<open>MustLoadFromEnvironment\<close> runs the same traversal as
  \<^verbatim>\<open>LoadFromEnvironment\<close>: it leaves the target in the same state, panics with the
  error that \<^verbatim>\<open>LoadFromEnvironment\<close> returns exactly when there is one, and returns
  normally otherwise. On an integer target with \<open>FOO=bar\<close> it panics.
\<close>

theorem MustLoadFromEnvironment_agrees:
  "MustLoadFromEnvironment tab environ pt prefix =
     (fst (LoadFromEnvironment tab environ pt prefix),
      case snd (LoadFromEnvironment tab environ pt prefix) of
        None \<Rightarrow> Returned
      | Some err \<Rightarrow> Panicked err)
   \<and> MustLoadFromEnvironment tab [''FOO'' \<mapsto> ''bar''] (IntV KInt 0) ''FOO'' =
       (IntV KInt 0,
        Panicked (CoercionError ''FOO'' ''int'' (NumError ''Atoi'' ''bar'' ErrSyntax)))"
proof -
  have g: "MustLoadFromEnvironment tab environ pt prefix =
     (fst (LoadFromEnvironment tab environ pt prefix),
      case snd (LoadFromEnvironment tab environ pt prefix) of
        None \<Rightarrow> Returned
      | Some err \<Rightarrow> Panicked err)"
    by (cases "loadRecursive tab environ pt prefix")
       (simp add: MustLoadFromEnvironment_def LoadFromEnvironment_def split: option.split)
  have e: "MustLoadFromEnvironment tab [''FOO'' \<mapsto> ''bar''] (IntV KInt 0) ''FOO'' =
       (IntV KInt 0,
        Panicked (CoercionError ''FOO'' ''int'' (NumError ''Atoi'' ''bar'' ErrSyntax)))"
    by code_simp
  from g e show ?thesis by (rule conjI)
qed

text \<open>
  Claim C10. For a root that is a scalar (a string, an integer, a boolean or a value of a
  kind without a branch), \<^verbatim>\<open>LoadFromEnvironment\<close> makes one lookup, under the prefix
  exactly as the caller wrote it: the prefix does not go through
  \<^verbatim>\<open>camelToUpperSnakeCase\<close>. A lower-case prefix reads the lower-case variable and not
  the upper-case one, whereas under a struct root the same prefix is upper-cased in the
  keys of the fields.
\<close>

theorem scalar_root_uses_prefix_verbatim:
  "LoadFromEnvironment tab environ (StringV s) prefix =
      (case LookupEnv environ prefix of
         None \<Rightarrow> (StringV s, None)
       | Some environmentValue \<Rightarrow> assign (StringV s) prefix environmentValue)
   \<and> LoadFromEnvironment tab environ (IntV k n) prefix =
      (case LookupEnv environ prefix of
         None \<Rightarrow> (IntV k n, None)
       | Some environmentValue \<Rightarrow> assign (IntV k n) prefix environmentValue)
   \<and> LoadFromEnvironment tab environ (BoolV b) prefix =
      (case LookupEnv environ prefix of
         None \<Rightarrow> (BoolV b, None)
       | Some environmentValue \<Rightarrow> assign (BoolV b) prefix environmentValue)
   \<and> LoadFromEnvironment tab environ (OtherV ok) prefix =
      (case LookupEnv environ prefix of
         None \<Rightarrow> (OtherV ok, None)
       | Some environmentValue \<Rightarrow> assign (OtherV ok) prefix environmentValue)
   \<and> LoadFromEnvironment tab [''foo'' \<mapsto> ''bar''] (StringV '''') ''foo'' = (StringV ''bar'', None)
   \<and> LoadFromEnvironment tab [''FOO'' \<mapsto> ''bar''] (StringV '''') ''foo'' = (StringV '''', None)
   \<and> LoadFromEnvironment tab [''FOO_BAR'' \<mapsto> ''baz'']
        (StructV [StructField ''Bar'' True (StringV '''')]) ''foo''
       = (StructV [StructField ''Bar'' True (StringV ''baz'')], None)"
proof -
  have g: "LoadFromEnvironment tab environ (StringV s) prefix =
      (case LookupEnv environ prefix of
         None \<Rightarrow> (StringV s, None)
       | Some environmentValue \<Rightarrow> assign (StringV s) prefix environmentValue)"
    "LoadFromEnvironment tab environ (IntV k n) prefix =
      (case LookupEnv environ prefix of
         None \<Rightarrow> (IntV k n, None)
       | Some environmentValue \<Rightarrow> assign (IntV k n) prefix environmentValue)"
    "LoadFromEnvironment tab environ (BoolV b) prefix =
      (case LookupEnv environ prefix of
         None \<Rightarrow> (BoolV b, None)
       | Some environmentValue \<Rightarrow> assign (BoolV b) prefix environmentValue)"
    "LoadFromEnvironment tab environ (OtherV ok) prefix =
      (case LookupEnv environ prefix of
         None \<Rightarrow> (OtherV ok, None)
       | Some environmentValue \<Rightarrow> assign (OtherV ok) prefix environmentValue)"
    by (simp_all only: LoadFromEnvironment_loadRecursive loadRecursive.simps
          lookup_and_assign_def)
  have e1: "LoadFromEnvironment tab [''foo'' \<mapsto> ''bar''] (StringV '''') ''foo''
      = (StringV ''bar'', None)" by code_simp
  have e2: "LoadFromEnvironment tab [''FOO'' \<mapsto> ''bar''] (StringV '''') ''foo''
      = (StringV '''', None)" by code_simp
  have e3: "LoadFromEnvironment tab [''FOO_BAR'' \<mapsto> ''baz'']
        (StructV [StructField ''Bar'' True (StringV '''')]) ''foo''
       = (StructV [StructField ''Bar'' True (StringV ''baz'')], None)" by code_simp
  from g e1 e2 e3 show ?thesis by (intro conjI)
qed


end
